theory Spec2Isabelle
  imports Complex_Main
begin

section \<open>JavaScript strings\<close>

text \<open>
  A JavaScript string is a sequence of UTF-16 code units; a code unit is modelled by its
  number. \<open>js\<close> turns an ASCII literal into such a sequence.
\<close>

type_synonym jsstring = "nat list"

definition js :: "string \<Rightarrow> jsstring" where
  "js s = map of_char s"

abbreviation period :: nat where "period \<equiv> 46"
abbreviation newline :: nat where "newline \<equiv> 10"

text \<open>
  The characters matched by \<open>\s\<close> in a regular expression and removed by
  \<open>String.prototype.trim\<close>: white space and line terminators of ECMAScript.
\<close>

definition is_space :: "nat \<Rightarrow> bool" where
  "is_space c =
     (c \<in> set [9, 10, 11, 12, 13, 32, 160, 5760, 8232, 8233, 8239, 8287, 12288, 65279]
      \<or> (8192 \<le> c \<and> c \<le> 8202))"

definition js_trim :: "jsstring \<Rightarrow> jsstring" where
  "js_trim s = rev (dropWhile is_space (rev (dropWhile is_space s)))"

text \<open>Decimal digits of a natural number, and the string of an integer number.\<close>

fun digits :: "nat \<Rightarrow> jsstring" where
  "digits n = (if n < 10 then [48 + n] else digits (n div 10) @ [48 + n mod 10])"

definition js_number :: "int \<Rightarrow> jsstring" where
  "js_number i = (if i < 0 then 45 # digits (nat (- i)) else digits (nat i))"


section \<open>ContentPopup.jsx: normalization of the response buffer\<close>

text \<open>
  \<^verbatim>\<open>next.replace(/\.\s{2,}/g, '.\n\n')\<close>: the scan goes from left to right; at a period
  followed by at least two white-space characters the greedy quantifier takes the whole
  run of white space, the match is replaced by a period and two newlines, and the scan
  goes on after the match. Any other character is copied.
\<close>

function normalize :: "jsstring \<Rightarrow> jsstring" where
  "normalize [] = []"
| "normalize (c # cs) =
     (if c = period \<and> 2 \<le> length (takeWhile is_space cs)
      then period # newline # newline # normalize (dropWhile is_space cs)
      else c # normalize cs)"
  by pat_completeness auto
termination
  by (relation "measure length") (auto simp: length_dropWhile_le less_Suc_eq_le)

text \<open>
  \<open>onToken\<close> of \<open>callGemini\<close>:
  \<^verbatim>\<open>setResponse((prev) => { const next = (prev ? prev + t : t); return next.replace(...) })\<close>.
\<close>

definition onToken_buffer :: "jsstring \<Rightarrow> jsstring \<Rightarrow> jsstring" where
  "onToken_buffer prev t = normalize (if prev \<noteq> [] then prev @ t else t)"

text \<open>
  The non-streaming fallback:
  \<^verbatim>\<open>(out || '(No response)').replace(/\.\s{2,}/g, '.\n\n')\<close>.
\<close>

definition fallback_normalized :: "jsstring \<Rightarrow> jsstring" where
  "fallback_normalized out = normalize (if out \<noteq> [] then out else js ''(No response)'')"


section \<open>content.js: the anchor rectangle\<close>

text \<open>
  A \<open>DOMRect\<close> in viewport coordinates, and what one run of \<open>update\<close> reads from the
  page: the live selection (\<open>window.getSelection()\<close>, which may be null), the rectangles
  of the \<open>.hl\<close> blocks of the element \<open>content-popup-selection-overlay\<close> when that element
  exists, the size of the viewport and the measured size of the popup.
\<close>

record rect =
  rleft :: real
  rtop :: real
  rright :: real
  rbottom :: real
  rwidth :: real
  rheight :: real

record selection =
  selText :: jsstring
  isCollapsed :: bool
  rangeCount :: nat
  clientRects :: "rect list"
  boundingRect :: rect

record dom =
  getSelection :: "selection option"
  overlayBlocks :: "rect list option"
  innerWidth :: real
  innerHeight :: real
  boxW :: real
  boxH :: real

definition MARGIN :: real where
  "MARGIN = 8"

text \<open>
  \<^verbatim>\<open>for (const r of rects) { if (r.bottom > bottomMost.bottom) bottomMost = r }\<close>
\<close>

fun bottomMostFrom :: "rect \<Rightarrow> rect list \<Rightarrow> rect" where
  "bottomMostFrom bottomMost [] = bottomMost"
| "bottomMostFrom bottomMost (r # rs) =
     bottomMostFrom (if rbottom r > rbottom bottomMost then r else bottomMost) rs"

text \<open>The test \<^verbatim>\<open>sel && sel.rangeCount > 0 && !sel.isCollapsed\<close> of the live branch.\<close>

definition liveRange :: "dom \<Rightarrow> selection option" where
  "liveRange d =
     (case getSelection d of
        None \<Rightarrow> None
      | Some sel \<Rightarrow> if 0 < rangeCount sel \<and> \<not> isCollapsed sel then Some sel else None)"

text \<open>The second part of \<open>getSelectionRect\<close>: the rectangle from the overlay highlights.\<close>

definition overlayRect :: "dom \<Rightarrow> rect option" where
  "overlayRect d =
     (case overlayBlocks d of
        None \<Rightarrow> None
      | Some [] \<Rightarrow> None
      | Some (b # bs) \<Rightarrow>
          (let bottomMost = bottomMostFrom b (b # bs)
           in if rwidth bottomMost > 0 \<or> rheight bottomMost > 0 then Some bottomMost else None))"

definition getSelectionRect :: "dom \<Rightarrow> rect option" where
  "getSelectionRect d =
     (case liveRange d of
        Some sel \<Rightarrow>
          (let rect = (case clientRects sel of
                         [] \<Rightarrow> boundingRect sel
                       | r0 # rs \<Rightarrow> bottomMostFrom r0 (r0 # rs))
           in if rwidth rect = 0 \<and> rheight rect = 0 then None else Some rect)
      | None \<Rightarrow> overlayRect d)"

definition hasSelection :: "dom \<Rightarrow> bool" where
  "hasSelection d =
     (case getSelection d of
        None \<Rightarrow> False
      | Some sel \<Rightarrow>
          js_trim (selText sel) \<noteq> []
          \<or> (\<not> isCollapsed sel \<and> 0 < rangeCount sel)
          \<or> (case overlayBlocks d of None \<Rightarrow> False | Some bs \<Rightarrow> bs \<noteq> []))"

definition rectIntersectsViewport :: "dom \<Rightarrow> rect \<Rightarrow> bool" where
  "rectIntersectsViewport d r =
     (rbottom r > 0 \<and> rright r > 0 \<and> rleft r < innerWidth d \<and> rtop r < innerHeight d)"

definition clamp :: "real \<Rightarrow> real \<Rightarrow> real \<Rightarrow> real" where
  "clamp v lo hi = max lo (min hi v)"

text \<open>The synthetic rectangle of \<open>update\<close>, in the bottom-left corner of the viewport.\<close>

definition cornerRect :: "dom \<Rightarrow> rect" where
  "cornerRect d =
     \<lparr>rleft = MARGIN, rtop = innerHeight d - (MARGIN + 1), rright = MARGIN + 1,
      rbottom = innerHeight d - MARGIN, rwidth = 1, rheight = 1\<rparr>"


section \<open>content.js: the visibility controller\<close>

datatype display = Block | DisplayNone

datatype lifecycle = PopupOpen | PopupClose

text \<open>
  The variables of the closure, the style of the popup element (\<open>display\<close>, \<open>left\<close>,
  \<open>top\<close>) and the lifecycle events dispatched on \<open>window\<close> so far.
\<close>

record vc_state =
  insidePopup :: bool
  lastVisible :: bool
  isMouseDown :: bool
  pinned :: bool
  forceClosed :: bool
  lastSelectionText :: jsstring
  boxDisplay :: display
  boxLeft :: real
  boxTop :: real
  dispatched :: "lifecycle list"

definition init_vc :: vc_state where
  "init_vc =
     \<lparr>insidePopup = False, lastVisible = False, isMouseDown = False, pinned = False,
      forceClosed = False, lastSelectionText = [], boxDisplay = DisplayNone,
      boxLeft = 0, boxTop = 0, dispatched = []\<rparr>"

definition positionBox :: "dom \<Rightarrow> rect option \<Rightarrow> vc_state \<Rightarrow> vc_state" where
  "positionBox d rect s =
     (case rect of
        None \<Rightarrow> s
      | Some r \<Rightarrow>
          (let desiredTop = rbottom r + MARGIN;
               desiredLeft = rleft r;
               maxLeft = innerWidth d - boxW d - MARGIN;
               maxTop = innerHeight d - boxH d - MARGIN;
               clampedLeft = clamp desiredLeft MARGIN (max MARGIN maxLeft);
               clampedTop = clamp desiredTop MARGIN (max MARGIN maxTop)
           in s\<lparr>boxDisplay := Block, boxLeft := clampedLeft, boxTop := clampedTop\<rparr>))"

text \<open>
  The first part of \<open>update\<close>: \<open>rect\<close> and \<open>selVisible\<close> after the corner fallback.
  The popup element exists from the first run on (\<open>getOrCreateBox\<close>), with
  \<open>display: none\<close>.
\<close>

definition anchor :: "dom \<Rightarrow> vc_state \<Rightarrow> rect option \<times> bool" where
  "anchor d s =
     (let rect = getSelectionRect d;
          selVisible = (case rect of None \<Rightarrow> False | Some r \<Rightarrow> rectIntersectsViewport d r);
          anySelectionOrPinned = (hasSelection d \<or> pinned s)
      in if \<not> selVisible \<and> anySelectionOrPinned then (Some (cornerRect d), True)
         else (rect, selVisible))"

text \<open>
  \<open>currentSelText\<close> of \<open>update\<close>: read from the live selection only when \<open>selVisible\<close>;
  a null selection makes the read throw, which leaves the empty string.
\<close>

definition currentSelText :: "dom \<Rightarrow> vc_state \<Rightarrow> jsstring" where
  "currentSelText d s =
     (if snd (anchor d s)
      then (case getSelection d of None \<Rightarrow> [] | Some sel \<Rightarrow> js_trim (selText sel))
      else [])"

definition update :: "dom \<Rightarrow> vc_state \<Rightarrow> vc_state" where
  "update d s =
     (let rect = fst (anchor d s);
          selVisible = snd (anchor d s);
          cur = currentSelText d s;
          selectionChanged = (cur \<noteq> lastSelectionText s);
          s1 = s\<lparr>lastSelectionText := cur\<rparr>;
          s2 = (if selectionChanged then s1\<lparr>forceClosed := False\<rparr> else s1);
          shouldShow = (\<not> forceClosed s2
                        \<and> (pinned s2 \<or> (\<not> isMouseDown s2 \<and> selVisible) \<or> insidePopup s2));
          s3 = (if selVisible then positionBox d rect s2 else s2);
          s4 = (if shouldShow \<noteq> lastVisible s3
                then s3\<lparr>dispatched := dispatched s3 @ [if shouldShow then PopupOpen else PopupClose],
                        lastVisible := shouldShow\<rparr>
                else s3)
      in s4\<lparr>boxDisplay := (if shouldShow then Block else DisplayNone)\<rparr>)"

text \<open>
  The events that change the variables of the closure: the listeners of \<open>popup:pin\<close>
  and \<open>popup:forceClose\<close>, of the pointer and the mouse, and a run of \<open>update\<close>
  (from the animation frame that \<open>scheduleUpdate\<close> requests, or the one at load).
\<close>

datatype vc_event =
  PopupPin bool
| ForceClose
| PointerEnter
| PointerLeave
| MouseDown
| MouseUp
| Tick dom

fun vc_step :: "vc_event \<Rightarrow> vc_state \<Rightarrow> vc_state" where
  "vc_step (PopupPin p) s = s\<lparr>pinned := p\<rparr>"
| "vc_step ForceClose s =
     s\<lparr>pinned := False, forceClosed := True, insidePopup := False, lastVisible := False,
       boxDisplay := DisplayNone\<rparr>"
| "vc_step PointerEnter s = s\<lparr>insidePopup := True\<rparr>"
| "vc_step PointerLeave s = s\<lparr>insidePopup := False\<rparr>"
| "vc_step MouseDown s = s\<lparr>isMouseDown := True\<rparr>"
| "vc_step MouseUp s = s\<lparr>isMouseDown := False\<rparr>"
| "vc_step (Tick d) s = update d s"

definition run_events :: "vc_event list \<Rightarrow> vc_state \<Rightarrow> vc_state" where
  "run_events evs s = foldl (\<lambda>st ev. vc_step ev st) s evs"

text \<open>
  A run of ticks in which the selection text computed at every tick is the one observed
  at the tick before.
\<close>

fun text_unchanged :: "dom list \<Rightarrow> vc_state \<Rightarrow> bool" where
  "text_unchanged [] s = True"
| "text_unchanged (d # ds) s =
     (currentSelText d s = lastSelectionText s \<and> text_unchanged ds (update d s))"


section \<open>content.js: named parts of the claims, and example pages\<close>

text \<open>
  \<open>selVisible\<close> of \<open>update\<close> as first computed, before the corner fallback:
  \<^verbatim>\<open>!!rect && rectIntersectsViewport(rect)\<close>.
\<close>

definition rectVisible :: "dom \<Rightarrow> bool" where
  "rectVisible d =
     (case getSelectionRect d of None \<Rightarrow> False | Some r \<Rightarrow> rectIntersectsViewport d r)"

text \<open>
  \<open>x\<close> is the first rectangle of the list whose \<open>bottom\<close> is the largest: the ones before
  it end strictly higher, the ones after it do not end lower.
\<close>

definition first_max_bottom :: "rect list \<Rightarrow> rect \<Rightarrow> bool" where
  "first_max_bottom rects x =
     (\<exists>pre post. rects = pre @ x # post
        \<and> (\<forall>r\<in>set pre. rbottom r < rbottom x) \<and> (\<forall>r\<in>set post. rbottom r \<le> rbottom x))"

text \<open>
  The synthetic rectangle in the words of the specification: 1 by 1, in the bottom-left
  corner of the viewport, with a margin of 1px.
\<close>

definition spec_cornerRect :: "dom \<Rightarrow> rect" where
  "spec_cornerRect d =
     \<lparr>rleft = 1, rtop = innerHeight d - 2, rright = 2, rbottom = innerHeight d - 1,
      rwidth = 1, rheight = 1\<rparr>"

text \<open>
  \<open>resolveAnchorRect\<close> in the words of the specification: the bottom-most client
  rectangle of a live selection that is not collapsed, rejected when its width and height
  are both zero; with no usable live rectangle, the bottom-most highlight block of the
  overlay; otherwise null.
\<close>

definition spec_liveRect :: "dom \<Rightarrow> rect option" where
  "spec_liveRect d =
     (case liveRange d of
        None \<Rightarrow> None
      | Some sel \<Rightarrow>
          (case clientRects sel of
             [] \<Rightarrow> None
           | r0 # rs \<Rightarrow>
               (let r = bottomMostFrom r0 (r0 # rs)
                in if rwidth r = 0 \<and> rheight r = 0 then None else Some r)))"

definition spec_resolveAnchorRect :: "dom \<Rightarrow> rect option" where
  "spec_resolveAnchorRect d =
     (case spec_liveRect d of
        Some r \<Rightarrow> Some r
      | None \<Rightarrow>
          (case overlayBlocks d of
             None \<Rightarrow> None
           | Some [] \<Rightarrow> None
           | Some (b # bs) \<Rightarrow> Some (bottomMostFrom b (b # bs))))"

definition ex_rect :: rect where
  "ex_rect = \<lparr>rleft = 100, rtop = 200, rright = 180, rbottom = 220, rwidth = 80, rheight = 20\<rparr>"

definition zero_rect :: rect where
  "zero_rect = \<lparr>rleft = 0, rtop = 0, rright = 0, rbottom = 0, rwidth = 0, rheight = 0\<rparr>"

definition ex_dom :: dom where
  "ex_dom =
     \<lparr>getSelection = Some \<lparr>selText = js '' E=mc2 '', isCollapsed = False, rangeCount = 1,
                             clientRects = [ex_rect], boundingRect = ex_rect\<rparr>,
      overlayBlocks = None, innerWidth = 1280, innerHeight = 720, boxW = 300, boxH = 40\<rparr>"

definition ex_dom_other :: dom where
  "ex_dom_other =
     \<lparr>getSelection = Some \<lparr>selText = js ''Relativity'', isCollapsed = False, rangeCount = 1,
                             clientRects = [ex_rect], boundingRect = ex_rect\<rparr>,
      overlayBlocks = None, innerWidth = 1280, innerHeight = 720, boxW = 300, boxH = 40\<rparr>"

definition ex_dom_empty :: dom where
  "ex_dom_empty =
     \<lparr>getSelection = Some \<lparr>selText = [], isCollapsed = True, rangeCount = 0,
                             clientRects = [], boundingRect = zero_rect\<rparr>,
      overlayBlocks = None, innerWidth = 1280, innerHeight = 720, boxW = 300, boxH = 40\<rparr>"

definition caret_rect :: rect where
  "caret_rect = \<lparr>rleft = 40, rtop = 300, rright = 40, rbottom = 300, rwidth = 0, rheight = 0\<rparr>"

definition upper_rect :: rect where
  "upper_rect = \<lparr>rleft = 100, rtop = 180, rright = 400, rbottom = 200, rwidth = 300, rheight = 20\<rparr>"

definition ex_dom_hidden :: dom where
  "ex_dom_hidden =
     \<lparr>getSelection = Some \<lparr>selText = js ''E=mc2'', isCollapsed = False, rangeCount = 1,
                             clientRects = [caret_rect], boundingRect = caret_rect\<rparr>,
      overlayBlocks = Some [ex_rect], innerWidth = 1280, innerHeight = 720,
      boxW = 300, boxH = 40\<rparr>"

definition ex_dom_lines :: dom where
  "ex_dom_lines =
     \<lparr>getSelection = Some \<lparr>selText = js ''two lines'', isCollapsed = False, rangeCount = 1,
                             clientRects = [upper_rect, ex_rect, ex_rect\<lparr>rleft := 0\<rparr>],
                             boundingRect = upper_rect\<rparr>,
      overlayBlocks = None, innerWidth = 1280, innerHeight = 720, boxW = 300, boxH = 40\<rparr>"

definition ex_dom_offscreen :: dom where
  "ex_dom_offscreen =
     \<lparr>getSelection = Some \<lparr>selText = js '' E=mc2 '', isCollapsed = False, rangeCount = 1,
                             clientRects = [ex_rect\<lparr>rtop := - 500, rbottom := - 480\<rparr>],
                             boundingRect = ex_rect\<lparr>rtop := - 500, rbottom := - 480\<rparr>\<rparr>,
      overlayBlocks = None, innerWidth = 1280, innerHeight = 720, boxW = 300, boxH = 40\<rparr>"

definition ex_dom_overlay :: dom where
  "ex_dom_overlay =
     \<lparr>getSelection = Some \<lparr>selText = [], isCollapsed = True, rangeCount = 1,
                             clientRects = [caret_rect], boundingRect = caret_rect\<rparr>,
      overlayBlocks = Some [upper_rect, ex_rect], innerWidth = 1280, innerHeight = 720,
      boxW = 300, boxH = 40\<rparr>"

definition ex_closed :: vc_state where
  "ex_closed = run_events [Tick ex_dom, ForceClose] init_vc"


section \<open>prompt.jsx: the prompt templates\<close>

datatype role = User | Assistant

record message =
  role :: role
  content :: jsstring

record context_snapshot =
  ctx_selection :: jsstring
  ctx_paragraph :: jsstring
  ctx_heading :: jsstring
  ctx_url :: jsstring

text \<open>
  \<open>JSON.stringify\<close> of a string: the quotation mark, the backslash and the control
  characters are escaped, and so is a surrogate that is not part of a pair.
\<close>

definition hex_digit :: "nat \<Rightarrow> nat" where
  "hex_digit n = (if n < 10 then 48 + n else 87 + n)"

definition unicode_escape :: "nat \<Rightarrow> jsstring" where
  "unicode_escape c =
     [92, 117, hex_digit (c div 4096 mod 16), hex_digit (c div 256 mod 16),
      hex_digit (c div 16 mod 16), hex_digit (c mod 16)]"

fun json_chars :: "jsstring \<Rightarrow> jsstring" where
  "json_chars [] = []"
| "json_chars (c # cs) =
     (if c = 34 then [92, 34] @ json_chars cs
      else if c = 92 then [92, 92] @ json_chars cs
      else if c = 8 then [92, 98] @ json_chars cs
      else if c = 9 then [92, 116] @ json_chars cs
      else if c = 10 then [92, 110] @ json_chars cs
      else if c = 12 then [92, 102] @ json_chars cs
      else if c = 13 then [92, 114] @ json_chars cs
      else if c < 32 then unicode_escape c @ json_chars cs
      else if 55296 \<le> c \<and> c \<le> 56319 then
        (case cs of
           [] \<Rightarrow> unicode_escape c
         | d # ds \<Rightarrow>
             if 56320 \<le> d \<and> d \<le> 57343 then c # d # json_chars ds
             else unicode_escape c @ json_chars cs)
      else if 56320 \<le> c \<and> c \<le> 57343 then unicode_escape c @ json_chars cs
      else c # json_chars cs)"

definition json_string :: "jsstring \<Rightarrow> jsstring" where
  "json_string s = [34] @ json_chars s @ [34]"

fun join :: "jsstring \<Rightarrow> jsstring list \<Rightarrow> jsstring" where
  "join sep [] = []"
| "join sep [x] = x"
| "join sep (x # y # ys) = x @ sep @ join sep (y # ys)"

definition json_message :: "message \<Rightarrow> jsstring" where
  "json_message m =
     concat
       [[123, 34], js ''role'', [34, 58, 34],
        (case role m of User \<Rightarrow> js ''user'' | Assistant \<Rightarrow> js ''assistant''),
        [34, 44, 34], js ''content'', [34, 58], json_string (content m), [125]]"

definition json_history :: "message list \<Rightarrow> jsstring" where
  "json_history h = [91] @ join [44] (map json_message h) @ [93]"

definition json_context :: "context_snapshot \<Rightarrow> jsstring" where
  "json_context c =
     concat
       [[123, 34], js ''selection'', [34, 58], json_string (ctx_selection c),
        [44, 34], js ''paragraph'', [34, 58], json_string (ctx_paragraph c),
        [44, 34], js ''heading'', [34, 58], json_string (ctx_heading c),
        [44, 34], js ''url'', [34, 58], json_string (ctx_url c), [125]]"

definition json_contexts :: "context_snapshot list \<Rightarrow> jsstring" where
  "json_contexts cs = [91] @ join [44] (map json_context cs) @ [93]"

text \<open>
  The three template literals of \<open>prompt.jsx\<close>, piece by piece; a character outside the
  plain ones is written as its code unit (10 is the line feed).
\<close>

definition Prompt :: "jsstring \<Rightarrow> jsstring \<Rightarrow> jsstring \<Rightarrow> jsstring \<Rightarrow> jsstring" where
  "Prompt selectedText url heading paragraph =
     concat
       [js ''You are an assistant that explains text simply and clearly.'', [10, 10],
        js ''   The user has selected the following text on a web page: '', selectedText,
          [10],
        js ''   '', [10],
        js ''   Here is the paragraph containing that text: '', paragraph, [10],
        js ''   '', [10],
        js ''   The page title (h1) is: '', heading, [10],
        js ''   '', [10],
        js ''   The page URL is: '', url, [10],
        js ''   '', [10],
        js ''  Task:'', [10],
        js ''   1. Explain what the selected text is and how it works or is used.'', [10],
        js ''   2. Do not mention the surrounding context, title, or source directly.'', [10],
        js ''   3. Adapt the explanation depending on the type of selection:'', [10],
        js ''      - Person'', [8217], js ''s name '', [8594],
          js '' explain their main contribution or role (not a full biography).'', [10],
        js ''      - Equation or formula '', [8594],
          js '' explain what the symbols mean and what the equation does.'', [10],
        js ''      - Term, definition, or jargon '', [8594],
          js '' explain the concept and how it works, with a simple example or analogy if helpful.'',
          [10],
        js ''      - General phrase or sentence '', [8594],
          js '' rephrase in simpler terms and clarify its meaning.'', [10],
        js ''   4. Keep the explanation clear and informative, focusing on function or meaning rather than history.'',
          [10],
        js ''   5. Limit the explanation to about 2 sentences.'', [10],
        js ''   '']"

definition SearchPrompt :: "jsstring \<Rightarrow> jsstring \<Rightarrow> jsstring \<Rightarrow> jsstring \<Rightarrow> jsstring \<Rightarrow> jsstring" where
  "SearchPrompt selectedText question url heading paragraph =
     concat
       [[10],
        js ''   '', [10],
        js ''   You are an assistant that answers questions simply and clearly.'', [10, 10],
        js ''   The user has selected the following text on a web page:'', [10],
        js ''   '', selectedText, [10],
        js ''   '', [10],
        js ''   Here is the paragraph containing that text:'', [10],
        js ''   '', paragraph, [10],
        js ''   '', [10],
        js ''   The page title (h1) is:'', [10],
        js ''   '', heading, [10],
        js ''   '', [10],
        js ''   The page URL is:'', [10],
        js ''   '', url, [10],
        js ''   '', [10],
        js ''   The user asks this question about the selected text:'', [10],
        js ''   '', question, [10, 10],
        js ''   Task:'', [10],
        js ''   1. Answer the user'', [8217], js ''s question directly and clearly.'', [10],
        js ''   2. Use the provided context to guide your answer, but never mention the context or source explicitly.'',
          [10],
        js ''   3. Keep the answer informative and accurate:'', [10],
        js ''      - If the question is about a person '', [8594],
          js '' focus on their role or contribution.'', [10],
        js ''      - If about an equation or formula '', [8594],
          js '' explain the parts and what it does.'', [10],
        js ''      - If about a term or concept '', [8594],
          js '' define it and explain how it works, with a simple example if helpful.'', [10],
        js ''      - If about a phrase or sentence '', [8594],
          js '' clarify its meaning or usage.'', [10],
        js ''   4. Avoid unnecessary history or unrelated details unless essential to the answer.'',
          [10],
        js ''   5. Keep the explanation concise but complete (2'', [8211],
          js ''4 sentences).'', [10],
        js ''   '']"

definition DeeperPrompt :: "message list \<Rightarrow> jsstring \<Rightarrow> context_snapshot list \<Rightarrow> jsstring" where
  "DeeperPrompt history question context =
     concat
       [json_history history, [10, 10],
        js ''   new follow up user message: '', [123, 10],
        js ''   role: '', [34], js ''user'', [34], js '','', [10],
        js ''   content: '', [34], question, [34, 10, 10],
        js ''   context: '', json_contexts context, [10],
        js ''   '', [125, 10],
        js ''   '', [10],
        js ''   Reminder: Keep the answer short (2'', [8211],
          js ''4 sentences) and finish at a natural stopping point.'', [10],
        js ''   '']"


section \<open>ContentPopup.jsx: helpers\<close>

text \<open>
  \<open>buildPrompt({selection, heading, url, context})\<close>.
\<close>

definition buildPrompt :: "jsstring \<Rightarrow> jsstring \<Rightarrow> jsstring \<Rightarrow> jsstring \<Rightarrow> jsstring" where
  "buildPrompt sel context heading url = Prompt sel url heading context"

text \<open>\<open>s.indexOf(pat)\<close>, with \<open>None\<close> for -1.\<close>

fun indexOf_from :: "nat \<Rightarrow> jsstring \<Rightarrow> jsstring \<Rightarrow> nat option" where
  "indexOf_from i pat [] = (if pat = [] then Some i else None)"
| "indexOf_from i pat (c # cs) =
     (if take (length pat) (c # cs) = pat then Some i else indexOf_from (Suc i) pat cs)"

definition indexOf :: "jsstring \<Rightarrow> jsstring \<Rightarrow> nat option" where
  "indexOf s pat = indexOf_from 0 pat s"

abbreviation ellipsis :: nat where "ellipsis \<equiv> 8230"

text \<open>
  \<open>sliceAroundSelection(paragraph, selection)\<close> with its default radius of 50. The case
  mapping of \<open>String.prototype.toLowerCase\<close> is a parameter.
\<close>

definition sliceAroundSelection ::
    "(jsstring \<Rightarrow> jsstring) \<Rightarrow> jsstring \<Rightarrow> jsstring \<Rightarrow> jsstring" where
  "sliceAroundSelection toLowerCase paragraph sel0 =
     (let radius = 50;
          p = paragraph;
          sel = js_trim sel0;
          clamped = (if length p > radius * 2 then take (radius * 2) p @ [ellipsis] else p)
      in if p = [] then []
         else if sel = [] then clamped
         else (case indexOf (toLowerCase p) (toLowerCase sel) of
                 None \<Rightarrow> clamped
               | Some idx \<Rightarrow>
                   (let start = idx - radius;
                        stop = min (length p) (idx + length sel + radius);
                        slice = drop start (take stop p);
                        slice1 = (if start > 0 then ellipsis # slice else slice)
                    in if stop < length p then slice1 @ [ellipsis] else slice1)))"

text \<open>
  The test \<^verbatim>\<open>/\b429\b|Too\s*Many\s*Requests/i\<close> on the message of an error. A word
  character is a letter, a digit or the underscore; with the flag \<open>i\<close> a letter of the
  pattern matches its upper and its lower case.
\<close>

definition is_word :: "nat \<Rightarrow> bool" where
  "is_word c = ((48 \<le> c \<and> c \<le> 57) \<or> (65 \<le> c \<and> c \<le> 90) \<or> (97 \<le> c \<and> c \<le> 122) \<or> c = 95)"

fun has_429 :: "bool \<Rightarrow> jsstring \<Rightarrow> bool" where
  "has_429 prevWord [] = False"
| "has_429 prevWord (c # cs) =
     ((\<not> prevWord \<and> c = 52 \<and> take 2 cs = [50, 57]
         \<and> (case drop 2 cs of [] \<Rightarrow> True | x # xs \<Rightarrow> \<not> is_word x))
      \<or> has_429 (is_word c) cs)"

fun ci_prefix :: "jsstring \<Rightarrow> jsstring \<Rightarrow> jsstring option" where
  "ci_prefix [] s = Some s"
| "ci_prefix (p # ps) [] = None"
| "ci_prefix (p # ps) (c # cs) = (if c = p \<or> c + 32 = p then ci_prefix ps cs else None)"

definition tooManyRequests_at :: "jsstring \<Rightarrow> bool" where
  "tooManyRequests_at s =
     (case ci_prefix (js ''too'') s of
        None \<Rightarrow> False
      | Some r1 \<Rightarrow>
          (case ci_prefix (js ''many'') (dropWhile is_space r1) of
             None \<Rightarrow> False
           | Some r2 \<Rightarrow> ci_prefix (js ''requests'') (dropWhile is_space r2) \<noteq> None))"

fun has_tooManyRequests :: "jsstring \<Rightarrow> bool" where
  "has_tooManyRequests [] = False"
| "has_tooManyRequests (c # cs) = (tooManyRequests_at (c # cs) \<or> has_tooManyRequests cs)"

definition is429 :: "jsstring \<Rightarrow> bool" where
  "is429 msg = (has_429 False msg \<or> has_tooManyRequests msg)"


section \<open>ContentPopup.jsx: state and the rate-limit gate\<close>

text \<open>
  What a handler reads from the page: the text of the live selection (\<open>None\<close> when
  \<open>window.getSelection()\<close> is null), the paragraph from \<open>getSelectionContextText()\<close>,
  the URL and the heading from \<open>getPageContext()\<close>.
\<close>

record page =
  liveText :: "jsstring option"
  fullContext :: jsstring
  pageUrl :: jsstring
  pageHeading :: jsstring

text \<open>The answer of \<open>getGeminiLimitStatus()\<close>.\<close>

record limit_status =
  limit :: bool
  remaining :: int
  windowMs :: int
  secondsRemaining :: int

text \<open>
  The state of the component and its refs (\<open>requestTimesRef\<close>, \<open>limitActionLockRef\<close>,
  \<open>appendedOnceRef\<close>) and the ref \<open>hasShownLimitRef\<close> of \<open>ResponseSection\<close>.
  \<open>responseRef\<close> is a field of its own: an effect copies the response into it after
  a render, and \<open>onDone\<close> reads it. \<open>historyRef\<close> and \<open>contextsRef\<close> are read by a
  handler of a user gesture, after the render, and are read as the state. The animated
  placeholders and the debug copies are left out.
\<close>

record popup_state =
  selectedText :: jsstring
  loading :: bool
  error :: jsstring
  response :: jsstring
  history :: "message list"
  contexts :: "context_snapshot list"
  questionInput :: jsstring
  deeperInput :: jsstring
  originalSelection :: jsstring
  limitReached :: int
  limitShown :: bool
  requestTimes :: "int list"
  limitActionLock :: bool
  appendedOnce :: bool
  hasShownLimit :: bool
  responseRef :: jsstring

definition init_popup :: popup_state where
  "init_popup =
     \<lparr>selectedText = [], loading = False, error = [], response = [], history = [],
      contexts = [], questionInput = [], deeperInput = [], originalSelection = [],
      limitReached = 0, limitShown = False, requestTimes = [], limitActionLock = False,
      appendedOnce = False, hasShownLimit = False, responseRef = []\<rparr>"

definition resetState :: "popup_state \<Rightarrow> popup_state" where
  "resetState s =
     s\<lparr>selectedText := [], response := [], error := [], loading := False, history := [],
       contexts := [], questionInput := [], deeperInput := [], originalSelection := [],
       limitReached := 0, limitShown := False, appendedOnce := False, responseRef := []\<rparr>"

definition RATE_LIMIT :: nat where
  "RATE_LIMIT = 5"

definition RATE_WINDOW_MS :: int where
  "RATE_WINDOW_MS = 60000"

text \<open>
  The gate that the three submit handlers run, each with the same lines: the entries of
  the window newer than the cutoff; with \<open>RATE_LIMIT\<close> of them or more the seconds until
  the oldest leaves the window, otherwise the entries with \<open>now\<close> pushed.
\<close>

datatype gate = Rejected int | Accepted "int list"

definition rateGate :: "int \<Rightarrow> int list \<Rightarrow> gate" where
  "rateGate now timestamps =
     (let cutoff = now - RATE_WINDOW_MS;
          recent = filter (\<lambda>t. t > cutoff) timestamps
      in if length recent \<ge> RATE_LIMIT
         then (let oldest = Min (set recent);
                   remainingSec = max 1 \<lceil>real_of_int (oldest + RATE_WINDOW_MS - now) / 1000\<rceil>
               in Rejected remainingSec)
         else Accepted (recent @ [now]))"

definition rateLimitMessage :: "int \<Rightarrow> jsstring" where
  "rateLimitMessage remainingSec =
     js ''Rate limit reached. Try again in '' @ js_number remainingSec @ js ''s''"

text \<open>
  The part of \<open>callGemini\<close> that runs before its first \<open>await\<close>.
\<close>

definition callGemini_start :: "popup_state \<Rightarrow> popup_state" where
  "callGemini_start s = s\<lparr>loading := True, error := [], response := [], appendedOnce := False\<rparr>"

text \<open>
  The submit handlers. The second component of the result is the prompt passed to
  \<open>callGemini\<close>, \<open>None\<close> when no request is made. The reads of the page are
  values of the model and do not throw, so the \<open>catch\<close> of \<open>handleExplainClick\<close>
  (\<open>Failed to read selection\<close>) has no branch here.
\<close>

definition handleExplainClick ::
    "(jsstring \<Rightarrow> jsstring) \<Rightarrow> page \<Rightarrow> int \<Rightarrow> popup_state \<Rightarrow> popup_state \<times> jsstring option" where
  "handleExplainClick toLowerCase pg now s =
     (let text = (case liveText pg of None \<Rightarrow> [] | Some t \<Rightarrow> js_trim t)
      in if text = []
         then (s\<lparr>selectedText := [], error := js ''Please select some text to explain.'',
                 response := []\<rparr>, None)
         else (case rateGate now (requestTimes s) of
                 Rejected remainingSec \<Rightarrow>
                   (s\<lparr>error := [], response := rateLimitMessage remainingSec\<rparr>, None)
               | Accepted recent \<Rightarrow>
                   (let context = sliceAroundSelection toLowerCase (fullContext pg) text;
                        prompt = buildPrompt text context (pageHeading pg) (pageUrl pg)
                    in (callGemini_start
                          (s\<lparr>requestTimes := recent, selectedText := text,
                             history := history s @ [\<lparr>role = User, content = prompt\<rparr>],
                             contexts := [\<lparr>ctx_selection = text, ctx_paragraph = context,
                                           ctx_heading = pageHeading pg, ctx_url = pageUrl pg\<rparr>]\<rparr>),
                        Some prompt))))"

definition handleTopSearchSubmit ::
    "(jsstring \<Rightarrow> jsstring) \<Rightarrow> jsstring \<Rightarrow> page \<Rightarrow> int \<Rightarrow> popup_state
      \<Rightarrow> popup_state \<times> jsstring option" where
  "handleTopSearchSubmit toLowerCase inputValue pg now s =
     (let val = js_trim inputValue
      in if val = [] then (s, None)
         else (case rateGate now (requestTimes s) of
                 Rejected remainingSec \<Rightarrow>
                   (s\<lparr>error := [], response := rateLimitMessage remainingSec\<rparr>, None)
               | Accepted recent \<Rightarrow>
                   (let context = sliceAroundSelection toLowerCase (fullContext pg)
                                    (originalSelection s);
                        prompt = SearchPrompt (originalSelection s) val (pageUrl pg)
                                   (pageHeading pg) context
                    in (callGemini_start
                          (s\<lparr>requestTimes := recent, questionInput := val,
                             history := history s @ [\<lparr>role = User, content = prompt\<rparr>],
                             contexts := [\<lparr>ctx_selection = originalSelection s,
                                           ctx_paragraph = context,
                                           ctx_heading = pageHeading pg, ctx_url = pageUrl pg\<rparr>]\<rparr>),
                        Some prompt))))"

definition handleDeeperSubmit ::
    "jsstring \<Rightarrow> int \<Rightarrow> popup_state \<Rightarrow> popup_state \<times> jsstring option" where
  "handleDeeperSubmit query now s =
     (let val = js_trim query
      in if val = [] then (s, None)
         else (case rateGate now (requestTimes s) of
                 Rejected remainingSec \<Rightarrow>
                   (s\<lparr>error := [], response := rateLimitMessage remainingSec\<rparr>, None)
               | Accepted recent \<Rightarrow>
                   (let prompt = DeeperPrompt (history s) val (contexts s)
                    in (callGemini_start
                          (s\<lparr>requestTimes := recent, deeperInput := val,
                             history := history s @ [\<lparr>role = User, content = val\<rparr>]\<rparr>),
                        Some prompt))))"


section \<open>ContentPopup.jsx: one request\<close>

definition tooManyMessage :: "int \<Rightarrow> jsstring" where
  "tooManyMessage n =
     js ''Too many requests, please try again in '' @ js_number n @ js '' seconds.''"

text \<open>
  \<^verbatim>\<open>setLimitReached(status.limit ? (Number(status.secondsRemaining || 0) || 1) : 0)\<close>
\<close>

definition refreshLimit :: "limit_status \<Rightarrow> popup_state \<Rightarrow> popup_state" where
  "refreshLimit st s =
     s\<lparr>limitReached :=
         (if limit st then (if secondsRemaining st \<noteq> 0 then secondsRemaining st else 1)
          else 0)\<rparr>"

text \<open>
  The guarded append of the assistant entry, in \<open>onDone\<close> and in the fallback.
\<close>

definition appendAssistant :: "jsstring \<Rightarrow> popup_state \<Rightarrow> popup_state" where
  "appendAssistant finalText s =
     (if finalText \<noteq> [] \<and> \<not> appendedOnce s
      then s\<lparr>appendedOnce := True,
             history := history s @ [\<lparr>role = Assistant, content = finalText\<rparr>]\<rparr>
      else s)"

definition onToken :: "jsstring \<Rightarrow> popup_state \<Rightarrow> popup_state" where
  "onToken t s = s\<lparr>response := onToken_buffer (response s) t\<rparr>"

text \<open>
  The effect \<^verbatim>\<open>useEffect(() => { responseRef.current = response }, [response])\<close>,
  run after a render.
\<close>

definition syncResponseRef :: "popup_state \<Rightarrow> popup_state" where
  "syncResponseRef s = s\<lparr>responseRef := response s\<rparr>"

text \<open>
  \<open>onDone\<close> takes the final text from \<open>responseRef.current\<close>, which is the response of
  the last render, not of the last token.
\<close>

definition onDone :: "limit_status \<Rightarrow> popup_state \<Rightarrow> popup_state" where
  "onDone st s =
     refreshLimit st (appendAssistant (js_trim (responseRef s)) (s\<lparr>loading := False\<rparr>))"

text \<open>
  The branch taken for a message that matches the 429 pattern; \<open>seconds\<close> is
  \<open>secondsRemaining\<close> of the status fetched there.
\<close>

definition rateLimited :: "int \<Rightarrow> popup_state \<Rightarrow> popup_state" where
  "rateLimited seconds s =
     (let n = (if seconds \<noteq> 0 then seconds else 60)
      in s\<lparr>response := tooManyMessage n, appendedOnce := True, limitReached := n\<rparr>)"

text \<open>
  The outcome of the non-streaming call \<open>callGeminiAPI\<close>: its text, or the message of
  the error it throws.
\<close>

datatype fallback = FallbackText jsstring | FallbackError jsstring

text \<open>
  \<open>onError\<close>: \<open>errMessage\<close> is \<open>err?.message || ''\<close>, \<open>st\<close> the limit status fetched on
  the path taken.
\<close>

definition onError :: "jsstring \<Rightarrow> limit_status \<Rightarrow> fallback \<Rightarrow> popup_state \<Rightarrow> popup_state" where
  "onError errMessage st fb s =
     (if is429 errMessage then (rateLimited (secondsRemaining st) s)\<lparr>loading := False\<rparr>
      else (case fb of
              FallbackText out \<Rightarrow>
                (let normalized = fallback_normalized out
                 in (refreshLimit st
                       (appendAssistant (js_trim normalized) (s\<lparr>response := normalized\<rparr>)))
                    \<lparr>loading := False\<rparr>)
            | FallbackError e2Message \<Rightarrow>
                (if is429 e2Message then (rateLimited (secondsRemaining st) s)\<lparr>loading := False\<rparr>
                 else s\<lparr>error := (if errMessage \<noteq> [] then errMessage
                                  else if e2Message \<noteq> [] then e2Message
                                  else js ''Failed to call Gemini service''),
                        loading := False\<rparr>)))"

text \<open>The \<open>catch\<close> around \<open>callGeminiStream\<close>.\<close>

definition outerCatch :: "jsstring \<Rightarrow> limit_status \<Rightarrow> popup_state \<Rightarrow> popup_state" where
  "outerCatch eMessage st s =
     (if is429 eMessage then (rateLimited (secondsRemaining st) s)\<lparr>loading := False\<rparr>
      else s\<lparr>error := (if eMessage \<noteq> [] then eMessage else js ''Failed to call Gemini service''),
             loading := False\<rparr>)"

text \<open>
  What can happen to a request after \<open>callGemini\<close> has started it: a token, a call of
  \<open>onDone\<close>, a call of \<open>onError\<close>, the \<open>catch\<close>, and in between a render followed by
  the effect on \<open>responseRef\<close>.
\<close>

datatype req_event =
  Token jsstring
| Done limit_status
| StreamError jsstring limit_status fallback
| Caught jsstring limit_status
| Rendered

fun req_step :: "req_event \<Rightarrow> popup_state \<Rightarrow> popup_state" where
  "req_step (Token t) s = onToken t s"
| "req_step (Done st) s = onDone st s"
| "req_step (StreamError m st fb) s = onError m st fb s"
| "req_step (Caught m st) s = outerCatch m st s"
| "req_step Rendered s = syncResponseRef s"

definition run_request :: "req_event list \<Rightarrow> popup_state \<Rightarrow> popup_state" where
  "run_request evs s = foldl (\<lambda>st ev. req_step ev st) s evs"


section \<open>ContentPopup.jsx and ResponseSection.jsx: the server limit\<close>

text \<open>
  The interval of the countdown effect runs while \<open>limitReached > 0\<close>; every second it
  applies \<^verbatim>\<open>(prev) => { const next = prev - 1; return next > 0 ? next : 0 }\<close>.
\<close>

definition countdownTick :: "int \<Rightarrow> int" where
  "countdownTick prev = (let next = prev - 1 in if next > 0 then next else 0)"

definition timerRunning :: "popup_state \<Rightarrow> bool" where
  "timerRunning s = (limitReached s > 0)"

definition countdown :: "popup_state \<Rightarrow> popup_state" where
  "countdown s = (if timerRunning s then s\<lparr>limitReached := countdownTick (limitReached s)\<rparr> else s)"

text \<open>The effect that re-arms the limit message once \<open>limitReached\<close> is 0 again.\<close>

definition limitEffect :: "popup_state \<Rightarrow> popup_state" where
  "limitEffect s =
     (if limitReached s = 0
      then s\<lparr>limitShown := False, limitActionLock := False, hasShownLimit := False\<rparr>
      else s)"

definition showLimitReachedOnce :: "limit_status \<Rightarrow> popup_state \<Rightarrow> popup_state" where
  "showLimitReachedOnce st s =
     (if limitActionLock s then s
      else (let secs = (if secondsRemaining st \<noteq> 0 then secondsRemaining st
                        else \<lceil>real_of_int (if windowMs st \<noteq> 0 then windowMs st else 60000) / 1000\<rceil>);
                n = (if secs \<noteq> 0 then secs else 60)
            in s\<lparr>limitActionLock := True, response := tooManyMessage n, limitReached := n,
                 limitShown := True, hasShownLimit := True\<rparr>))"

text \<open>
  A submit gesture on the deeper search bar of \<open>ResponseSection\<close> (Enter in the input,
  a click or Enter on the icon): blocked while \<open>limitReached >= 1\<close>, otherwise the
  trimmed value, when not empty, goes to \<open>onDeeperSubmit\<close>.
\<close>

definition deeperAttempt ::
    "jsstring \<Rightarrow> int \<Rightarrow> limit_status \<Rightarrow> popup_state \<Rightarrow> popup_state \<times> jsstring option" where
  "deeperAttempt inputValue now st s =
     (if limitReached s \<ge> 1
      then (if \<not> limitShown s \<and> \<not> hasShownLimit s
            then (showLimitReachedOnce st (s\<lparr>hasShownLimit := True\<rparr>), None)
            else (s, None))
      else (let q = js_trim inputValue
            in if q \<noteq> [] then handleDeeperSubmit q now s else (s, None)))"

text \<open>\<open>ResponseSection\<close> renders the entries of the history after the first.\<close>

definition visibleHistory :: "message list \<Rightarrow> message list" where
  "visibleHistory h = (if length h > 0 then drop 1 h else [])"

text \<open>
  The response section, with the deeper search bar, is rendered when
  \<^verbatim>\<open>response || error || loading\<close>.
\<close>

definition responseOpen :: "popup_state \<Rightarrow> bool" where
  "responseOpen s = (response s \<noteq> [] \<or> error s \<noteq> [] \<or> loading s)"

text \<open>The operations on the component that the claims speak of.\<close>

datatype popup_event =
  ExplainClick page int
| TopSearchSubmit jsstring page int
| DeeperAttempt jsstring int limit_status
| Request req_event
| CountdownTick
| LimitEffect
| Reset

fun popup_step :: "(jsstring \<Rightarrow> jsstring) \<Rightarrow> popup_event \<Rightarrow> popup_state \<Rightarrow> popup_state" where
  "popup_step lc (ExplainClick pg now) s = fst (handleExplainClick lc pg now s)"
| "popup_step lc (TopSearchSubmit v pg now) s = fst (handleTopSearchSubmit lc v pg now s)"
| "popup_step lc (DeeperAttempt v now st) s =
     (if responseOpen s then fst (deeperAttempt v now st s) else s)"
| "popup_step lc (Request ev) s = req_step ev s"
| "popup_step lc CountdownTick s = countdown s"
| "popup_step lc LimitEffect s = limitEffect s"
| "popup_step lc Reset s = resetState s"

definition run_popup :: "(jsstring \<Rightarrow> jsstring) \<Rightarrow> popup_event list \<Rightarrow> popup_state \<Rightarrow> popup_state" where
  "run_popup lc evs s = foldl (\<lambda>st ev. popup_step lc ev st) s evs"


section \<open>ContentPopup.jsx: named parts of the claims, and example inputs\<close>

text \<open>The pruned window of the gate: the stored entries newer than the cutoff.\<close>

definition recentOf :: "int \<Rightarrow> int list \<Rightarrow> int list" where
  "recentOf now timestamps = filter (\<lambda>t. t > now - RATE_WINDOW_MS) timestamps"

text \<open>
  An instance of the case mapping for the examples (it maps the ASCII capitals), a page
  with a selection, a page without, and a component that made five requests.
\<close>

definition ascii_lower :: "jsstring \<Rightarrow> jsstring" where
  "ascii_lower s = map (\<lambda>c. if 65 \<le> c \<and> c \<le> 90 then c + 32 else c) s"

definition ex_page :: page where
  "ex_page =
     \<lparr>liveText = Some (js '' E=mc2 ''), fullContext = js ''Einstein wrote E=mc2 in 1905.'',
      pageUrl = js ''https://example.com'', pageHeading = js ''Relativity''\<rparr>"

definition ex_page_empty :: page where
  "ex_page_empty =
     \<lparr>liveText = Some [], fullContext = [], pageUrl = js ''https://example.com'',
      pageHeading = js ''Relativity''\<rparr>"

definition ex_busy :: popup_state where
  "ex_busy = init_popup\<lparr>requestTimes := [1000, 2000, 3000, 4000, 5000]\<rparr>"


text \<open>
  The seconds shown for a server limit, \<^verbatim>\<open>seconds || 60\<close>; a limit status that reports
  42 seconds and one that reports no limit; the component after a first Explain click;
  the prompt of that click; and a session of one explanation and one follow-up.
\<close>

definition limitSeconds :: "limit_status \<Rightarrow> int" where
  "limitSeconds st = (if secondsRemaining st \<noteq> 0 then secondsRemaining st else 60)"

definition ex_status :: limit_status where
  "ex_status = \<lparr>limit = True, remaining = 0, windowMs = 60000, secondsRemaining = 42\<rparr>"

definition ex_loading :: popup_state where
  "ex_loading = fst (handleExplainClick ascii_lower ex_page 1000 init_popup)"

definition ex_idle :: limit_status where
  "ex_idle = \<lparr>limit = False, remaining = 5, windowMs = 60000, secondsRemaining = 0\<rparr>"

definition ex_prompt :: jsstring where
  "ex_prompt =
     Prompt (js ''E=mc2'') (js ''https://example.com'') (js ''Relativity'')
       (sliceAroundSelection ascii_lower (js ''Einstein wrote E=mc2 in 1905.'') (js ''E=mc2''))"

definition ex_session :: "popup_event list" where
  "ex_session =
     [ExplainClick ex_page 1000,
      Request (Token (js ''The '')), Request (Token (js ''theory. '')),
      Request (Token (js ''  More.'')), Request Rendered, Request (Done ex_idle),
      Request (Done ex_idle),
      DeeperAttempt (js '' why '') 2000 ex_idle,
      Request (Token (js ''Because.'')), Request Rendered, Request (Done ex_idle)]"


section \<open>Normalization: proofs\<close>

lemma takeWhile_before_stop:
  "\<not> P c \<Longrightarrow> takeWhile P (xs @ c # ys) = takeWhile P xs"
  by (induction xs) auto

lemma dropWhile_before_stop:
  "\<not> P c \<Longrightarrow> dropWhile P (xs @ c # ys) = dropWhile P xs @ c # ys"
  by (induction xs) auto

lemma takeWhile_run:
  "\<forall>c\<in>set ws. P c \<Longrightarrow> post = [] \<or> \<not> P (hd post) \<Longrightarrow> takeWhile P (ws @ post) = ws"
  by (induction ws) (auto simp: takeWhile_eq_Nil_iff neq_Nil_conv)

lemma dropWhile_run:
  "\<forall>c\<in>set ws. P c \<Longrightarrow> post = [] \<or> \<not> P (hd post) \<Longrightarrow> dropWhile P (ws @ post) = post"
  by (induction ws) (auto simp: dropWhile_eq_self_iff neq_Nil_conv)

lemma period_not_space: "\<not> is_space period"
  by (simp add: is_space_def)

text \<open>A match never runs over a character that is not white space.\<close>

lemma normalize_split:
  "\<not> is_space c \<Longrightarrow> normalize (pre @ c # rest) = normalize pre @ normalize (c # rest)"
proof (induction pre rule: normalize.induct)
  case 1
  show ?case by simp
next
  case (2 d ds)
  have tk: "takeWhile is_space (ds @ c # rest) = takeWhile is_space ds"
    using "2.prems" by (rule takeWhile_before_stop)
  have dr: "dropWhile is_space (ds @ c # rest) = dropWhile is_space ds @ c # rest"
    using "2.prems" by (rule dropWhile_before_stop)
  show ?case
  proof (cases "d = period \<and> 2 \<le> length (takeWhile is_space ds)")
    case True
    with "2.IH"(1) "2.prems" tk dr show ?thesis by simp
  next
    case False
    with "2.IH"(2) "2.prems" tk show ?thesis by auto
  qed
qed

lemma normalize_period_run:
  assumes "\<forall>c\<in>set ws. is_space c" and "post = [] \<or> \<not> is_space (hd post)"
  shows "normalize (period # ws @ post) =
         (if 2 \<le> length ws then period # newline # newline # normalize post
          else period # normalize (ws @ post))"
proof -
  have tk: "takeWhile is_space (ws @ post) = ws"
    using assms by (rule takeWhile_run)
  have dr: "dropWhile is_space (ws @ post) = post"
    using assms by (rule dropWhile_run)
  show ?thesis
    by (simp only: normalize.simps tk dr) simp
qed

lemma normalize_no_period: "period \<notin> set s \<Longrightarrow> normalize s = s"
  by (induction s) auto

lemma normalize_short_run:
  assumes "\<forall>c\<in>set ws. is_space c" and "length ws < 2"
    and "post = [] \<or> \<not> is_space (hd post)"
  shows "normalize (ws @ post) = ws @ normalize post"
proof -
  have nws: "period \<notin> set ws"
    using assms(1) period_not_space by auto
  show ?thesis
  proof (cases post)
    case Nil
    with nws show ?thesis by (simp add: normalize_no_period)
  next
    case (Cons p ps)
    with assms(3) have "\<not> is_space p" by simp
    then have "normalize (ws @ p # ps) = normalize ws @ normalize (p # ps)"
      by (rule normalize_split)
    with Cons nws show ?thesis by (simp add: normalize_no_period)
  qed
qed

lemma onToken_response: "response (onToken t s) = normalize (response s @ t)"
  by (simp add: onToken_def onToken_buffer_def)

lemma run_tokens:
  "response (run_request (map Token toks) s)
     = foldl (\<lambda>buf tok. normalize (buf @ tok)) (response s) toks"
proof (induction toks arbitrary: s)
  case Nil
  show ?case by (simp add: run_request_def)
next
  case (Cons t toks)
  have "run_request (map Token (t # toks)) s = run_request (map Token toks) (onToken t s)"
    by (simp add: run_request_def)
  with Cons.IH [of "onToken t s"] show ?case
    by (simp add: onToken_response)
qed

lemma onError_fallback_response:
  "\<not> is429 m \<Longrightarrow>
   response (onError m st (FallbackText out) s)
     = normalize (if out = [] then js ''(No response)'' else out)"
  by (simp add: onError_def fallback_normalized_def refreshLimit_def appendAssistant_def Let_def)

lemma not429_500: "\<not> is429 (js ''Gemini stream failed: 500 Internal Server Error'')"
  by (simp add: is429_def tooManyRequests_at_def js_def is_word_def is_space_def)

text \<open>
  Claim C4. Every occurrence of a period followed by two or more white-space characters
  (the whole run \<open>ws\<close>, ending at the end of the buffer or at a character that is not
  white space) is replaced by a period and exactly two newlines, wherever it stands in
  the buffer; a period followed by fewer than two is kept as it is, and so is text
  without a period. \<open>onToken\<close> sets the response to the normalized whole buffer, the old
  response followed by the token, so a run of tokens folds the rule over the buffer; the
  fallback branch of \<open>onError\<close> sets the response to the normalized fallback text. A
  request that receives the tokens \<open>"The "\<close>, \<open>"theory. "\<close>, \<open>"  More."\<close> ends with the
  response \<open>"The theory.\n\nMore."\<close>.
\<close>

theorem normalize_stream:
  "((\<forall>c\<in>set ws. is_space c) \<and> (post = [] \<or> \<not> is_space (hd post)) \<longrightarrow>
      normalize (pre @ period # ws @ post) =
        (if 2 \<le> length ws then normalize pre @ period # newline # newline # normalize post
         else normalize pre @ period # ws @ normalize post))
   \<and> (period \<notin> set body \<longrightarrow> normalize body = body)
   \<and> response (onToken t s) = normalize (response s @ t)
   \<and> response (run_request (map Token toks) s)
       = foldl (\<lambda>buf tok. normalize (buf @ tok)) (response s) toks
   \<and> (\<not> is429 m \<longrightarrow>
        response (onError m st (FallbackText out) s)
          = normalize (if out = [] then js ''(No response)'' else out))
   \<and> response (run_request
          [Token (js ''The ''), Token (js ''theory. ''), Token (js ''  More.'')]
          (callGemini_start s))
       = js ''The theory.'' @ [newline, newline] @ js ''More.''"
proof (intro conjI impI)
  assume a: "(\<forall>c\<in>set ws. is_space c) \<and> (post = [] \<or> \<not> is_space (hd post))"
  have "normalize (pre @ period # ws @ post) = normalize pre @ normalize (period # ws @ post)"
    using period_not_space by (rule normalize_split)
  also have "normalize (period # ws @ post) =
      (if 2 \<le> length ws then period # newline # newline # normalize post
       else period # normalize (ws @ post))"
    using a by (intro normalize_period_run) auto
  finally show "normalize (pre @ period # ws @ post) =
        (if 2 \<le> length ws then normalize pre @ period # newline # newline # normalize post
         else normalize pre @ period # ws @ normalize post)"
    using a by (auto simp: normalize_short_run)
next
  assume "period \<notin> set body"
  then show "normalize body = body" by (rule normalize_no_period)
next
  show "response (onToken t s) = normalize (response s @ t)"
    by (rule onToken_response)
next
  show "response (run_request (map Token toks) s)
       = foldl (\<lambda>buf tok. normalize (buf @ tok)) (response s) toks"
    by (rule run_tokens)
next
  assume "\<not> is429 m"
  then show "response (onError m st (FallbackText out) s)
          = normalize (if out = [] then js ''(No response)'' else out)"
    by (rule onError_fallback_response)
next
  have "response (run_request (map Token [js ''The '', js ''theory. '', js ''  More.''])
          (callGemini_start s))
      = foldl (\<lambda>buf tok. normalize (buf @ tok)) (response (callGemini_start s))
          [js ''The '', js ''theory. '', js ''  More.'']"
    by (rule run_tokens)
  then show "response (run_request
          [Token (js ''The ''), Token (js ''theory. ''), Token (js ''  More.'')]
          (callGemini_start s))
       = js ''The theory.'' @ [newline, newline] @ js ''More.''"
    by (simp add: callGemini_start_def js_def is_space_def)
qed

theorem normalize_stream_witness:
  "is_space 32 \<and> is_space 9 \<and> \<not> is_space (hd (js ''B''))
   \<and> period \<notin> set (js ''A'')
   \<and> normalize (js ''A'' @ period # [32, 32, 9] @ js ''B'') = js ''A.'' @ [newline, newline] @ js ''B''
   \<and> normalize (js ''A'') = js ''A''
   \<and> response (onToken (js '' B'') (init_popup\<lparr>response := js ''A. ''\<rparr>))
       = js ''A.'' @ [newline, newline] @ js ''B''
   \<and> \<not> is429 (js ''Gemini stream failed: 500 Internal Server Error'')
   \<and> response (onError (js ''Gemini stream failed: 500 Internal Server Error'') ex_idle
        (FallbackText (js ''One.   Two'')) init_popup)
       = js ''One.'' @ [newline, newline] @ js ''Two''
   \<and> response (run_request
          [Token (js ''The ''), Token (js ''theory. ''), Token (js ''  More.'')]
          (callGemini_start init_popup))
       = js ''The theory.'' @ [newline, newline] @ js ''More.''"
  using normalize_stream [where ws = "[32, 32, 9]" and post = "js ''B''" and pre = "js ''A''"
      and body = "js ''A''" and t = "js '' B''" and s = "init_popup\<lparr>response := js ''A. ''\<rparr>"]
    normalize_stream [where m = "js ''Gemini stream failed: 500 Internal Server Error''"
      and st = ex_idle and out = "js ''One.   Two''" and s = init_popup]
    not429_500
  by (simp add: js_def is_space_def)


section \<open>content.js: proofs\<close>

lemmas example_defs = ex_rect_def zero_rect_def ex_dom_def ex_dom_other_def ex_dom_empty_def
  caret_rect_def upper_rect_def ex_dom_hidden_def ex_dom_lines_def ex_dom_overlay_def
  ex_dom_offscreen_def

lemmas vc_defs = update_def anchor_def currentSelText_def getSelectionRect_def liveRange_def
  overlayRect_def hasSelection_def rectIntersectsViewport_def cornerRect_def MARGIN_def
  positionBox_def clamp_def init_vc_def run_events_def js_trim_def js_def is_space_def

subsection \<open>The bottom-most rectangle\<close>

lemma bottomMostFrom_result:
  "(bottomMostFrom bm rs = bm \<and> (\<forall>r\<in>set rs. rbottom r \<le> rbottom bm))
   \<or> (rbottom bm < rbottom (bottomMostFrom bm rs) \<and> first_max_bottom rs (bottomMostFrom bm rs))"
proof (induction rs arbitrary: bm)
  case Nil
  show ?case by simp
next
  case (Cons r rs)
  show ?case
  proof (cases "rbottom r > rbottom bm")
    case True
    then have eq: "bottomMostFrom bm (r # rs) = bottomMostFrom r rs" by simp
    from Cons.IH [of r] show ?thesis
    proof
      assume a: "bottomMostFrom r rs = r \<and> (\<forall>x\<in>set rs. rbottom x \<le> rbottom r)"
      then have "r # rs = [] @ r # rs \<and> (\<forall>x\<in>set []. rbottom x < rbottom r)
          \<and> (\<forall>x\<in>set rs. rbottom x \<le> rbottom r)" by simp
      then have "first_max_bottom (r # rs) r"
        unfolding first_max_bottom_def by blast
      with a eq True show ?thesis by simp
    next
      assume a: "rbottom r < rbottom (bottomMostFrom r rs)
          \<and> first_max_bottom rs (bottomMostFrom r rs)"
      let ?x = "bottomMostFrom r rs"
      from a obtain pre post where d: "rs = pre @ ?x # post"
        "\<forall>y\<in>set pre. rbottom y < rbottom ?x" "\<forall>y\<in>set post. rbottom y \<le> rbottom ?x"
        unfolding first_max_bottom_def by blast
      with a have "r # rs = (r # pre) @ ?x # post \<and> (\<forall>y\<in>set (r # pre). rbottom y < rbottom ?x)
          \<and> (\<forall>y\<in>set post. rbottom y \<le> rbottom ?x)" by simp
      then have "first_max_bottom (r # rs) ?x"
        unfolding first_max_bottom_def by blast
      with a eq True show ?thesis by simp
    qed
  next
    case False
    then have eq: "bottomMostFrom bm (r # rs) = bottomMostFrom bm rs" by simp
    from Cons.IH [of bm] show ?thesis
    proof
      assume "bottomMostFrom bm rs = bm \<and> (\<forall>x\<in>set rs. rbottom x \<le> rbottom bm)"
      with eq False show ?thesis by simp
    next
      assume a: "rbottom bm < rbottom (bottomMostFrom bm rs)
          \<and> first_max_bottom rs (bottomMostFrom bm rs)"
      let ?x = "bottomMostFrom bm rs"
      from a obtain pre post where d: "rs = pre @ ?x # post"
        "\<forall>y\<in>set pre. rbottom y < rbottom ?x" "\<forall>y\<in>set post. rbottom y \<le> rbottom ?x"
        unfolding first_max_bottom_def by blast
      with a False have "r # rs = (r # pre) @ ?x # post
          \<and> (\<forall>y\<in>set (r # pre). rbottom y < rbottom ?x)
          \<and> (\<forall>y\<in>set post. rbottom y \<le> rbottom ?x)" by simp
      then have "first_max_bottom (r # rs) ?x"
        unfolding first_max_bottom_def by blast
      with a eq show ?thesis by simp
    qed
  qed
qed

lemma bottomMost_first_max:
  "first_max_bottom (r0 # rs) (bottomMostFrom r0 (r0 # rs))"
proof -
  have eq: "bottomMostFrom r0 (r0 # rs) = bottomMostFrom r0 rs" by simp
  from bottomMostFrom_result [of r0 rs] show ?thesis
  proof
    assume a: "bottomMostFrom r0 rs = r0 \<and> (\<forall>r\<in>set rs. rbottom r \<le> rbottom r0)"
    then have "r0 # rs = [] @ r0 # rs \<and> (\<forall>x\<in>set []. rbottom x < rbottom r0)
          \<and> (\<forall>x\<in>set rs. rbottom x \<le> rbottom r0)" by simp
    then have "first_max_bottom (r0 # rs) r0"
      unfolding first_max_bottom_def by blast
    with a eq show ?thesis by simp
  next
    assume a: "rbottom r0 < rbottom (bottomMostFrom r0 rs)
        \<and> first_max_bottom rs (bottomMostFrom r0 rs)"
    let ?x = "bottomMostFrom r0 rs"
    from a obtain pre post where d: "rs = pre @ ?x # post"
      "\<forall>y\<in>set pre. rbottom y < rbottom ?x" "\<forall>y\<in>set post. rbottom y \<le> rbottom ?x"
      unfolding first_max_bottom_def by blast
    with a have "r0 # rs = (r0 # pre) @ ?x # post
        \<and> (\<forall>y\<in>set (r0 # pre). rbottom y < rbottom ?x)
        \<and> (\<forall>y\<in>set post. rbottom y \<le> rbottom ?x)" by simp
    then have "first_max_bottom (r0 # rs) ?x"
      unfolding first_max_bottom_def by blast
    with eq show ?thesis by simp
  qed
qed

lemma first_max_bottom_unique:
  "first_max_bottom rects x \<Longrightarrow> first_max_bottom rects y \<Longrightarrow> x = y"
proof -
  assume "first_max_bottom rects x" and "first_max_bottom rects y"
  then obtain p1 q1 p2 q2 where
    x: "rects = p1 @ x # q1" "\<forall>r\<in>set p1. rbottom r < rbottom x" "\<forall>r\<in>set q1. rbottom r \<le> rbottom x"
    and y: "rects = p2 @ y # q2" "\<forall>r\<in>set p2. rbottom r < rbottom y" "\<forall>r\<in>set q2. rbottom r \<le> rbottom y"
    unfolding first_max_bottom_def by blast
  from x(1) y(1) have "p1 @ x # q1 = p2 @ y # q2" by simp
  then consider (eq) "p1 = p2" "x = y"
    | (l) us where "p1 @ x # us = p2" 
    | (r) us where "p2 @ y # us = p1"
    by (auto simp: append_eq_append_conv2 Cons_eq_append_conv append_eq_Cons_conv)
  then show "x = y"
  proof cases
    case eq then show ?thesis by simp
  next
    case l
    then have xin: "x \<in> set p2" by auto
    from l y(1) x(1) have "y \<in> set q1" by auto
    with x(3) xin y(2) show ?thesis by fastforce
  next
    case r
    then have yin: "y \<in> set p1" by auto
    from r y(1) x(1) have "x \<in> set q2" by auto
    with y(3) yin x(2) show ?thesis by fastforce
  qed
qed


subsection \<open>One run of update\<close>

lemma update_forceClosed:
  "forceClosed (update d s) = (forceClosed s \<and> currentSelText d s = lastSelectionText s)"
  by (simp add: update_def Let_def positionBox_def split: option.splits)

lemma update_lastSelectionText:
  "lastSelectionText (update d s) = currentSelText d s"
  by (simp add: update_def Let_def positionBox_def split: option.splits)

lemma update_flags:
  "pinned (update d s) = pinned s \<and> isMouseDown (update d s) = isMouseDown s
   \<and> insidePopup (update d s) = insidePopup s"
  by (simp add: update_def Let_def positionBox_def split: option.splits)

lemma update_boxDisplay:
  "boxDisplay (update d s) =
     (if \<not> (forceClosed s \<and> currentSelText d s = lastSelectionText s)
         \<and> (pinned s \<or> (\<not> isMouseDown s \<and> snd (anchor d s)) \<or> insidePopup s)
      then Block else DisplayNone)"
  by (simp add: update_def Let_def positionBox_def split: option.splits)

lemma step_keeps_forceClosed:
  "forceClosed s \<Longrightarrow> \<forall>d. ev \<noteq> Tick d \<Longrightarrow> forceClosed (vc_step ev s)"
  by (cases ev) auto

lemma ticks_keep_forceClosed:
  "forceClosed s \<Longrightarrow> text_unchanged ds s \<Longrightarrow> forceClosed (run_events (map Tick ds) s)
     \<and> lastSelectionText (run_events (map Tick ds) s) = lastSelectionText s"
proof (induction ds arbitrary: s)
  case Nil
  then show ?case by (simp add: run_events_def)
next
  case (Cons d ds)
  from Cons.prems have fc: "forceClosed (update d s)" and tu: "text_unchanged ds (update d s)"
    by (simp_all add: update_forceClosed)
  from Cons.IH [OF fc tu] Cons.prems show ?case
    by (simp add: run_events_def update_lastSelectionText)
qed

lemma anchor_cases:
  "anchor d s =
     (if \<not> rectVisible d \<and> (hasSelection d \<or> pinned s) then (Some (cornerRect d), True)
      else (getSelectionRect d, rectVisible d))"
  by (simp add: anchor_def rectVisible_def Let_def)

lemma update_box_position:
  "snd (anchor d s) \<Longrightarrow> fst (anchor d s) = Some r \<Longrightarrow>
   boxLeft (update d s) = clamp (rleft r) MARGIN (max MARGIN (innerWidth d - boxW d - MARGIN))
   \<and> boxTop (update d s) = clamp (rbottom r + MARGIN) MARGIN (max MARGIN (innerHeight d - boxH d - MARGIN))"
  by (simp add: update_def Let_def positionBox_def)

lemma text_gives_visible:
  "getSelection d = Some sel \<Longrightarrow> js_trim (selText sel) \<noteq> [] \<Longrightarrow>
   snd (anchor d s) \<and> currentSelText d s = js_trim (selText sel)"
  by (auto simp: anchor_cases currentSelText_def hasSelection_def)

lemma ex_closed_eval:
  "forceClosed ex_closed \<and> lastSelectionText ex_closed = js ''E=mc2'' \<and> \<not> pinned ex_closed
   \<and> \<not> isMouseDown ex_closed \<and> \<not> insidePopup ex_closed"
  by (simp add: ex_closed_def vc_defs example_defs)

lemma ex_currentSelText:
  "currentSelText ex_dom s = js ''E=mc2'' \<and> currentSelText ex_dom_other s = js ''Relativity''"
  by (simp add: currentSelText_def anchor_def getSelectionRect_def liveRange_def
      rectIntersectsViewport_def js_trim_def js_def is_space_def example_defs)

subsection \<open>Claims about getSelectionRect\<close>

text \<open>
  Claim C7, as the specification words it: a live rectangle that is rejected for being
  empty leaves "no usable live rect", and the bottom-most highlight block of the overlay
  is returned instead. The code returns null at once in that case: on a page with a live
  selection whose only client rectangle is empty and an overlay with one highlight block,
  the specification's function gives the block and \<open>getSelectionRect\<close> gives null.
\<close>

theorem getSelectionRect_counterexample:
  "liveRange ex_dom_hidden \<noteq> None
   \<and> spec_liveRect ex_dom_hidden = None
   \<and> overlayBlocks ex_dom_hidden = Some [ex_rect]
   \<and> spec_resolveAnchorRect ex_dom_hidden = Some ex_rect
   \<and> getSelectionRect ex_dom_hidden = None"
  by (simp add: getSelectionRect_def spec_resolveAnchorRect_def spec_liveRect_def liveRange_def
      example_defs)


text \<open>
  Claim C7, amended. A live selection that is not collapsed and has a range decides the
  result alone: the first client rectangle of its first range with the largest bottom
  (the bounding rectangle of the range when there are no client rectangles), and null
  when the width and the height of that rectangle are both zero; the overlay is not
  consulted. Without such a selection the result is the first highlight block of the
  overlay with the largest bottom when its width or its height is positive, and null
  when it is not, when the overlay has no blocks or when there is no overlay.
\<close>

theorem getSelectionRect_cases:
  "(liveRange d = Some sel) = (getSelection d = Some sel \<and> 0 < rangeCount sel \<and> \<not> isCollapsed sel)
   \<and> (liveRange d = Some sel \<and> clientRects sel \<noteq> [] \<longrightarrow>
        (\<exists>x. first_max_bottom (clientRects sel) x
           \<and> getSelectionRect d = (if rwidth x = 0 \<and> rheight x = 0 then None else Some x)))
   \<and> (liveRange d = Some sel \<and> clientRects sel = [] \<longrightarrow>
        getSelectionRect d =
          (if rwidth (boundingRect sel) = 0 \<and> rheight (boundingRect sel) = 0 then None
           else Some (boundingRect sel)))
   \<and> (liveRange d = None \<and> overlayBlocks d = Some blocks \<and> blocks \<noteq> [] \<longrightarrow>
        (\<exists>x. first_max_bottom blocks x
           \<and> getSelectionRect d = (if rwidth x > 0 \<or> rheight x > 0 then Some x else None)))
   \<and> (liveRange d = None \<and> (overlayBlocks d = None \<or> overlayBlocks d = Some []) \<longrightarrow>
        getSelectionRect d = None)"
proof (intro conjI impI)
  show "(liveRange d = Some sel) = (getSelection d = Some sel \<and> 0 < rangeCount sel \<and> \<not> isCollapsed sel)"
    by (auto simp: liveRange_def split: option.splits)
next
  assume a: "liveRange d = Some sel \<and> clientRects sel \<noteq> []"
  then obtain r0 rs where c: "clientRects sel = r0 # rs"
    by (auto simp: neq_Nil_conv)
  let ?x = "bottomMostFrom r0 (r0 # rs)"
  have "first_max_bottom (clientRects sel) ?x"
    unfolding c by (rule bottomMost_first_max)
  moreover have "getSelectionRect d = (if rwidth ?x = 0 \<and> rheight ?x = 0 then None else Some ?x)"
    using a c by (simp add: getSelectionRect_def Let_def)
  ultimately show "\<exists>x. first_max_bottom (clientRects sel) x
           \<and> getSelectionRect d = (if rwidth x = 0 \<and> rheight x = 0 then None else Some x)"
    by blast
next
  assume "liveRange d = Some sel \<and> clientRects sel = []"
  then show "getSelectionRect d =
          (if rwidth (boundingRect sel) = 0 \<and> rheight (boundingRect sel) = 0 then None
           else Some (boundingRect sel))"
    by (simp add: getSelectionRect_def Let_def)
next
  assume a: "liveRange d = None \<and> overlayBlocks d = Some blocks \<and> blocks \<noteq> []"
  then obtain b bs where c: "blocks = b # bs"
    by (auto simp: neq_Nil_conv)
  let ?x = "bottomMostFrom b (b # bs)"
  have "first_max_bottom blocks ?x"
    unfolding c by (rule bottomMost_first_max)
  moreover have "getSelectionRect d = (if rwidth ?x > 0 \<or> rheight ?x > 0 then Some ?x else None)"
    using a c by (simp add: getSelectionRect_def overlayRect_def Let_def)
  ultimately show "\<exists>x. first_max_bottom blocks x
           \<and> getSelectionRect d = (if rwidth x > 0 \<or> rheight x > 0 then Some x else None)"
    by blast
next
  assume "liveRange d = None \<and> (overlayBlocks d = None \<or> overlayBlocks d = Some [])"
  then show "getSelectionRect d = None"
    by (auto simp: getSelectionRect_def overlayRect_def)
qed


theorem getSelectionRect_cases_witness:
  "liveRange ex_dom_lines = getSelection ex_dom_lines
   \<and> first_max_bottom [upper_rect, ex_rect, ex_rect\<lparr>rleft := 0\<rparr>] ex_rect
   \<and> getSelectionRect ex_dom_lines = Some ex_rect
   \<and> liveRange ex_dom_overlay = None
   \<and> overlayBlocks ex_dom_overlay = Some [upper_rect, ex_rect]
   \<and> getSelectionRect ex_dom_overlay = Some ex_rect
   \<and> liveRange ex_dom_empty = None
   \<and> overlayBlocks ex_dom_empty = None
   \<and> getSelectionRect ex_dom_empty = None"
proof -
  have l: "liveRange ex_dom_lines = getSelection ex_dom_lines
      \<and> liveRange ex_dom_overlay = None \<and> liveRange ex_dom_empty = None"
    by (simp add: liveRange_def example_defs)
  have fm: "first_max_bottom [upper_rect, ex_rect, ex_rect\<lparr>rleft := 0\<rparr>] ex_rect"
    using bottomMost_first_max [of upper_rect "[ex_rect, ex_rect\<lparr>rleft := 0\<rparr>]"]
    by (simp add: example_defs)
  have fo: "first_max_bottom [upper_rect, ex_rect] ex_rect"
    using bottomMost_first_max [of upper_rect "[ex_rect]"]
    by (simp add: example_defs)
  have w: "rwidth ex_rect = 80"
    by (simp add: example_defs)
  have c: "getSelection ex_dom_lines = Some (the (getSelection ex_dom_lines))
      \<and> clientRects (the (getSelection ex_dom_lines)) = [upper_rect, ex_rect, ex_rect\<lparr>rleft := 0\<rparr>]"
    by (simp add: ex_dom_lines_def)
  have ob: "overlayBlocks ex_dom_overlay = Some [upper_rect, ex_rect]
      \<and> overlayBlocks ex_dom_empty = None"
    by (simp add: ex_dom_overlay_def ex_dom_empty_def)
  have "\<exists>x. first_max_bottom [upper_rect, ex_rect, ex_rect\<lparr>rleft := 0\<rparr>] x
      \<and> getSelectionRect ex_dom_lines = (if rwidth x = 0 \<and> rheight x = 0 then None else Some x)"
    using getSelectionRect_cases [of ex_dom_lines "the (getSelection ex_dom_lines)"] l c
    by simp
  then obtain x where x: "first_max_bottom [upper_rect, ex_rect, ex_rect\<lparr>rleft := 0\<rparr>] x"
    "getSelectionRect ex_dom_lines = (if rwidth x = 0 \<and> rheight x = 0 then None else Some x)"
    by blast
  from x(1) fm have "x = ex_rect" by (rule first_max_bottom_unique)
  with x(2) w have g1: "getSelectionRect ex_dom_lines = Some ex_rect" by simp
  have "\<exists>y. first_max_bottom [upper_rect, ex_rect] y
      \<and> getSelectionRect ex_dom_overlay = (if rwidth y > 0 \<or> rheight y > 0 then Some y else None)"
    using getSelectionRect_cases [of ex_dom_overlay _ "[upper_rect, ex_rect]"] l ob
    by simp
  then obtain y where y: "first_max_bottom [upper_rect, ex_rect] y"
    "getSelectionRect ex_dom_overlay = (if rwidth y > 0 \<or> rheight y > 0 then Some y else None)"
    by blast
  from y(1) fo have "y = ex_rect" by (rule first_max_bottom_unique)
  with y(2) w have g2: "getSelectionRect ex_dom_overlay = Some ex_rect" by simp
  have g3: "getSelectionRect ex_dom_empty = None"
    using getSelectionRect_cases [of ex_dom_empty] l ob
    by simp
  from l fm g1 g2 g3 ob show ?thesis
    by simp
qed


subsection \<open>Claims about update\<close>

text \<open>
  Claim C1. After every run of \<open>update\<close> the popup is displayed if and only if, on the
  state of that run, it is not force-closed and it is pinned, or the mouse is up and the
  selection counts as visible, or the pointer is inside the popup; it is hidden otherwise.
  \<open>forceClosed\<close> is read after the run has cleared it for a changed selection text; the
  other three variables are not changed by the run.
\<close>

theorem update_shows_iff:
  "boxDisplay (update d s) =
     (if \<not> forceClosed (update d s)
         \<and> (pinned (update d s) \<or> (\<not> isMouseDown (update d s) \<and> snd (anchor d s))
             \<or> insidePopup (update d s))
      then Block else DisplayNone)
   \<and> forceClosed (update d s) = (forceClosed s \<and> currentSelText d s = lastSelectionText s)
   \<and> pinned (update d s) = pinned s
   \<and> isMouseDown (update d s) = isMouseDown s
   \<and> insidePopup (update d s) = insidePopup s"
  by (simp add: update_boxDisplay update_forceClosed update_flags)

theorem update_shows_iff_witness:
  "boxDisplay (update ex_dom init_vc) = Block
   \<and> boxDisplay (update ex_dom (init_vc\<lparr>isMouseDown := True\<rparr>)) = DisplayNone
   \<and> boxDisplay (update ex_dom (init_vc\<lparr>isMouseDown := True, insidePopup := True\<rparr>)) = Block
   \<and> boxDisplay (update ex_dom_empty init_vc) = DisplayNone
   \<and> boxDisplay (update ex_dom_empty (init_vc\<lparr>pinned := True\<rparr>)) = Block"
  using update_shows_iff [of ex_dom init_vc]
    update_shows_iff [of ex_dom "init_vc\<lparr>isMouseDown := True\<rparr>"]
    update_shows_iff [of ex_dom "init_vc\<lparr>isMouseDown := True, insidePopup := True\<rparr>"]
    update_shows_iff [of ex_dom_empty init_vc]
    update_shows_iff [of ex_dom_empty "init_vc\<lparr>pinned := True\<rparr>"]
  by (simp add: anchor_def currentSelText_def getSelectionRect_def liveRange_def
      overlayRect_def hasSelection_def rectIntersectsViewport_def init_vc_def js_trim_def
      js_def is_space_def example_defs)


text \<open>
  Claim C2. A force-close sets \<open>forceClosed\<close>. While it is set, a run of \<open>update\<close> keeps
  it exactly when the selection text it computes is the one last observed; so it stays
  set across any run of ticks with unchanged text and is cleared by the first tick whose
  text differs. No event other than such a tick clears it.
\<close>

theorem forceClosed_until_text_changes:
  "forceClosed (vc_step ForceClose s)
   \<and> (forceClosed s \<longrightarrow>
        forceClosed (update d s) = (currentSelText d s = lastSelectionText s))
   \<and> (forceClosed s \<and> text_unchanged ds s \<longrightarrow>
        forceClosed (run_events (map Tick ds) s))
   \<and> (forceClosed s \<and> text_unchanged ds s
        \<and> currentSelText d (run_events (map Tick ds) s)
            \<noteq> lastSelectionText (run_events (map Tick ds) s) \<longrightarrow>
        \<not> forceClosed (run_events (map Tick (ds @ [d])) s))
   \<and> (forceClosed s \<and> (\<forall>d'. ev \<noteq> Tick d') \<longrightarrow> forceClosed (vc_step ev s))"
proof (intro conjI impI)
  show "forceClosed (vc_step ForceClose s)" by simp
next
  assume "forceClosed s"
  then show "forceClosed (update d s) = (currentSelText d s = lastSelectionText s)"
    by (simp add: update_forceClosed)
next
  assume "forceClosed s \<and> text_unchanged ds s"
  then show "forceClosed (run_events (map Tick ds) s)"
    using ticks_keep_forceClosed by blast
next
  assume a: "forceClosed s \<and> text_unchanged ds s
        \<and> currentSelText d (run_events (map Tick ds) s)
            \<noteq> lastSelectionText (run_events (map Tick ds) s)"
  have "run_events (map Tick (ds @ [d])) s = update d (run_events (map Tick ds) s)"
    by (simp add: run_events_def)
  with a show "\<not> forceClosed (run_events (map Tick (ds @ [d])) s)"
    by (simp add: update_forceClosed)
next
  assume "forceClosed s \<and> (\<forall>d'. ev \<noteq> Tick d')"
  then show "forceClosed (vc_step ev s)"
    using step_keeps_forceClosed by blast
qed


theorem forceClosed_until_text_changes_witness:
  "forceClosed ex_closed
   \<and> text_unchanged [ex_dom, ex_dom] ex_closed
   \<and> forceClosed (run_events (map Tick [ex_dom, ex_dom]) ex_closed)
   \<and> \<not> forceClosed (run_events (map Tick ([ex_dom, ex_dom] @ [ex_dom_other])) ex_closed)
   \<and> forceClosed (vc_step MouseUp ex_closed)"
proof -
  have tu: "text_unchanged [ex_dom, ex_dom] ex_closed"
    using ex_closed_eval by (simp add: ex_currentSelText update_lastSelectionText)
  have last: "lastSelectionText (run_events (map Tick [ex_dom, ex_dom]) ex_closed) = js ''E=mc2''"
    by (simp add: run_events_def update_lastSelectionText ex_currentSelText)
  have ne: "js ''Relativity'' \<noteq> js ''E=mc2''"
    by (simp add: js_def)
  show ?thesis
    using forceClosed_until_text_changes [of ex_closed ex_dom_other "[ex_dom, ex_dom]" MouseUp]
      ex_closed_eval tu last ne
    by (simp add: ex_currentSelText)
qed


text \<open>
  Claim C8, as the specification words it: the synthetic rectangle lies 1px from the
  corner. On a page without any selection and with the popup pinned the rectangle that
  \<open>update\<close> substitutes is not that one: its left edge is at 8 and its bottom edge 8
  above the bottom of the viewport.
\<close>

theorem corner_anchor_counterexample:
  "\<not> rectVisible ex_dom_empty \<and> pinned (init_vc\<lparr>pinned := True\<rparr>)
   \<and> snd (anchor ex_dom_empty (init_vc\<lparr>pinned := True\<rparr>))
   \<and> fst (anchor ex_dom_empty (init_vc\<lparr>pinned := True\<rparr>)) \<noteq> Some (spec_cornerRect ex_dom_empty)
   \<and> rleft (the (fst (anchor ex_dom_empty (init_vc\<lparr>pinned := True\<rparr>)))) = 8
   \<and> rbottom (the (fst (anchor ex_dom_empty (init_vc\<lparr>pinned := True\<rparr>)))) = 720 - 8"
  by (simp add: rectVisible_def anchor_def getSelectionRect_def liveRange_def overlayRect_def
      hasSelection_def cornerRect_def spec_cornerRect_def MARGIN_def init_vc_def example_defs)


text \<open>
  Claim C8, amended. When the rectangle from \<open>getSelectionRect\<close> is missing or off screen
  and a selection exists or the popup is pinned, \<open>update\<close> takes the 1 by 1 rectangle
  whose left edge is \<open>MARGIN\<close> = 8px from the left of the viewport and whose bottom edge
  is 8px above its bottom, treats it as visible, and places the popup at left 8px and
  top max(8, innerHeight - height of the popup - 8). In every other case the rectangle
  and its visibility are the ones of \<open>getSelectionRect\<close>.
\<close>

theorem corner_anchor:
  "(\<not> rectVisible d \<and> (hasSelection d \<or> pinned s) \<longrightarrow>
      anchor d s =
        (Some \<lparr>rleft = 8, rtop = innerHeight d - 9, rright = 9, rbottom = innerHeight d - 8,
               rwidth = 1, rheight = 1\<rparr>, True)
      \<and> boxLeft (update d s) = 8
      \<and> (0 \<le> boxH d \<longrightarrow> boxTop (update d s) = max 8 (innerHeight d - boxH d - 8)))
   \<and> (rectVisible d \<or> \<not> (hasSelection d \<or> pinned s) \<longrightarrow>
      anchor d s = (getSelectionRect d, rectVisible d))"
proof (intro conjI impI)
  assume a: "\<not> rectVisible d \<and> (hasSelection d \<or> pinned s)"
  then have an: "anchor d s = (Some (cornerRect d), True)"
    by (simp add: anchor_cases)
  then show "anchor d s =
        (Some \<lparr>rleft = 8, rtop = innerHeight d - 9, rright = 9, rbottom = innerHeight d - 8,
               rwidth = 1, rheight = 1\<rparr>, True)"
    by (simp add: cornerRect_def MARGIN_def)
  from an have pos: "boxLeft (update d s) = clamp (rleft (cornerRect d)) MARGIN (max MARGIN (innerWidth d - boxW d - MARGIN))
   \<and> boxTop (update d s) = clamp (rbottom (cornerRect d) + MARGIN) MARGIN (max MARGIN (innerHeight d - boxH d - MARGIN))"
    by (intro update_box_position) simp_all
  from pos show "boxLeft (update d s) = 8"
    by (simp add: cornerRect_def MARGIN_def clamp_def)
  assume "0 \<le> boxH d"
  with pos show "boxTop (update d s) = max 8 (innerHeight d - boxH d - 8)"
    by (auto simp add: cornerRect_def MARGIN_def clamp_def max_def min_def)
next
  assume "rectVisible d \<or> \<not> (hasSelection d \<or> pinned s)"
  then show "anchor d s = (getSelectionRect d, rectVisible d)"
    by (auto simp add: anchor_cases)
qed


theorem corner_anchor_witness:
  "\<not> rectVisible ex_dom_empty \<and> pinned (init_vc\<lparr>pinned := True\<rparr>)
   \<and> anchor ex_dom_empty (init_vc\<lparr>pinned := True\<rparr>) =
       (Some \<lparr>rleft = 8, rtop = 711, rright = 9, rbottom = 712, rwidth = 1, rheight = 1\<rparr>, True)
   \<and> boxLeft (update ex_dom_empty (init_vc\<lparr>pinned := True\<rparr>)) = 8
   \<and> boxTop (update ex_dom_empty (init_vc\<lparr>pinned := True\<rparr>)) = 672
   \<and> rectVisible ex_dom
   \<and> anchor ex_dom init_vc = (Some ex_rect, True)"
proof -
  have nv: "\<not> rectVisible ex_dom_empty"
    by (simp add: rectVisible_def getSelectionRect_def liveRange_def overlayRect_def example_defs)
  have v: "rectVisible ex_dom \<and> getSelectionRect ex_dom = Some ex_rect"
    by (simp add: rectVisible_def getSelectionRect_def liveRange_def rectIntersectsViewport_def
        example_defs)
  have p: "pinned (init_vc\<lparr>pinned := True\<rparr>)" by simp
  have h: "innerHeight ex_dom_empty = 720 \<and> boxH ex_dom_empty = 40"
    by (simp add: example_defs)
  show ?thesis
    using corner_anchor [of ex_dom_empty "init_vc\<lparr>pinned := True\<rparr>"]
      corner_anchor [of ex_dom init_vc] nv v p h
    by simp
qed


lemma rect_gives_selection:
  "getSelectionRect d = Some r \<Longrightarrow> getSelection d \<noteq> None \<Longrightarrow> hasSelection d"
  by (auto simp: getSelectionRect_def liveRange_def overlayRect_def hasSelection_def Let_def
      split: option.splits if_splits list.splits)

lemma offscreen_is_cornered:
  "getSelectionRect d = Some r \<Longrightarrow> getSelection d \<noteq> None \<Longrightarrow> \<not> rectVisible d \<Longrightarrow>
   anchor d s = (Some (cornerRect d), True)"
  using rect_gives_selection [of d r] by (simp add: anchor_cases)

lemma same_text_tick:
  assumes "forceClosed s" "getSelection d = Some sel"
    "js_trim (selText sel) = lastSelectionText s" "lastSelectionText s \<noteq> []"
  shows "snd (anchor d s) \<and> currentSelText d s = lastSelectionText s
     \<and> forceClosed (update d s) \<and> lastSelectionText (update d s) = lastSelectionText s
     \<and> boxDisplay (update d s) = DisplayNone"
proof -
  from assms(2,3,4) have tv: "snd (anchor d s) \<and> currentSelText d s = js_trim (selText sel)"
    by (intro text_gives_visible) simp_all
  with assms show ?thesis
    by (simp add: update_forceClosed update_lastSelectionText update_boxDisplay)
qed

lemma same_text_run:
  "forceClosed s \<Longrightarrow> lastSelectionText s \<noteq> [] \<Longrightarrow>
   \<forall>d\<in>set ds. \<exists>sel. getSelection d = Some sel \<and> js_trim (selText sel) = lastSelectionText s \<Longrightarrow>
   forceClosed (run_events (map Tick ds) s)
   \<and> lastSelectionText (run_events (map Tick ds) s) = lastSelectionText s"
proof (induction ds arbitrary: s)
  case Nil
  then show ?case by (simp add: run_events_def)
next
  case (Cons d ds)
  from Cons.prems(3) obtain sel where
    sel: "getSelection d = Some sel" "js_trim (selText sel) = lastSelectionText s"
    by auto
  from same_text_tick [OF Cons.prems(1) sel Cons.prems(2)]
  have u: "forceClosed (update d s)" "lastSelectionText (update d s) = lastSelectionText s"
    by simp_all
  from Cons.prems(2,3) u(2)
  have "lastSelectionText (update d s) \<noteq> []"
    and "\<forall>d'\<in>set ds. \<exists>sel. getSelection d' = Some sel
           \<and> js_trim (selText sel) = lastSelectionText (update d s)"
    by simp_all
  from Cons.IH [OF u(1) this] u(2) show ?case
    by (simp add: run_events_def)
qed

text \<open>
  Claim C10, as the specification words it: after a force-close the same selection text
  reopens the popup once the selection has passed through an empty or an off-screen
  state. A selection that is scrolled off screen still exists: the tick corner-anchors
  it, reads the same text and keeps \<open>forceClosed\<close>, and the tick after it, with the
  selection back on screen, leaves the popup hidden.
\<close>

theorem empty_tick_forgets_text_counterexample:
  "getSelectionRect ex_dom_offscreen \<noteq> None
   \<and> \<not> rectVisible ex_dom_offscreen
   \<and> lastSelectionText (update ex_dom init_vc) = js ''E=mc2''
   \<and> forceClosed (run_events [ForceClose, Tick ex_dom_offscreen] (update ex_dom init_vc))
   \<and> lastSelectionText (run_events [ForceClose, Tick ex_dom_offscreen] (update ex_dom init_vc))
       = js ''E=mc2''
   \<and> forceClosed
        (run_events [ForceClose, Tick ex_dom_offscreen, Tick ex_dom] (update ex_dom init_vc))
   \<and> boxDisplay
        (run_events [ForceClose, Tick ex_dom_offscreen, Tick ex_dom] (update ex_dom init_vc))
       = DisplayNone"
  by (simp add: rectVisible_def vc_defs example_defs)

text \<open>
  Claim C10, amended. On a run of \<open>update\<close> with no visible rectangle, no selection and
  no pin the computed and recorded selection text is empty. If the text observed before
  was not empty that run clears \<open>forceClosed\<close>, and a later run that finds a selection
  with non-empty text computes that text, which differs from the recorded empty one: the
  popup is shown once the mouse is up. So after a force-close a tick with the same text
  keeps the popup hidden, and the same text after a tick with nothing selected shows it.
  An off-screen state does not do the same: a selection that exists but has its
  rectangle off screen is corner-anchored and counts as visible, and any tick, or run
  of ticks, at which a selection with the unchanged non-empty text exists keeps
  \<open>forceClosed\<close> and the popup hidden.
\<close>

theorem empty_tick_forgets_text:
  "(\<not> rectVisible d \<and> \<not> hasSelection d \<and> \<not> pinned s \<longrightarrow>
      currentSelText d s = []
      \<and> lastSelectionText (update d s) = []
      \<and> (lastSelectionText s \<noteq> [] \<longrightarrow> \<not> forceClosed (update d s))
      \<and> (getSelection d' = Some sel \<and> js_trim (selText sel) \<noteq> [] \<longrightarrow>
           currentSelText d' (update d s) = js_trim (selText sel)
           \<and> currentSelText d' (update d s) \<noteq> lastSelectionText (update d s)
           \<and> \<not> forceClosed (update d' (update d s))
           \<and> (\<not> isMouseDown s \<longrightarrow> boxDisplay (update d' (update d s)) = Block)))
   \<and> (\<not> rectVisible d \<and> \<not> hasSelection d
       \<and> getSelection d' = Some sel \<and> js_trim (selText sel) = lastSelectionText s0
       \<and> lastSelectionText s0 \<noteq> [] \<and> \<not> isMouseDown s0 \<longrightarrow>
         forceClosed (vc_step ForceClose s0)
         \<and> boxDisplay (run_events [ForceClose, Tick d'] s0) = DisplayNone
         \<and> \<not> forceClosed (run_events [ForceClose, Tick d] s0)
         \<and> boxDisplay (run_events [ForceClose, Tick d, Tick d'] s0) = Block)
   \<and> (getSelectionRect d' = Some r \<and> getSelection d' \<noteq> None \<and> \<not> rectVisible d' \<longrightarrow>
         anchor d' s = (Some (cornerRect d'), True))
   \<and> (forceClosed s \<and> getSelection d' = Some sel
       \<and> js_trim (selText sel) = lastSelectionText s \<and> lastSelectionText s \<noteq> [] \<longrightarrow>
         snd (anchor d' s) \<and> currentSelText d' s = lastSelectionText s
         \<and> forceClosed (update d' s) \<and> lastSelectionText (update d' s) = lastSelectionText s
         \<and> boxDisplay (update d' s) = DisplayNone)
   \<and> (forceClosed s \<and> lastSelectionText s \<noteq> []
       \<and> (\<forall>x\<in>set ds. \<exists>sel'. getSelection x = Some sel'
              \<and> js_trim (selText sel') = lastSelectionText s) \<longrightarrow>
         forceClosed (run_events (map Tick ds) s)
         \<and> lastSelectionText (run_events (map Tick ds) s) = lastSelectionText s)"
proof -
  have part1: "currentSelText d s = []
      \<and> lastSelectionText (update d s) = []
      \<and> (lastSelectionText s \<noteq> [] \<longrightarrow> \<not> forceClosed (update d s))
      \<and> (getSelection d' = Some sel \<and> js_trim (selText sel) \<noteq> [] \<longrightarrow>
           currentSelText d' (update d s) = js_trim (selText sel)
           \<and> currentSelText d' (update d s) \<noteq> lastSelectionText (update d s)
           \<and> \<not> forceClosed (update d' (update d s))
           \<and> (\<not> isMouseDown s \<longrightarrow> boxDisplay (update d' (update d s)) = Block))"
    if a: "\<not> rectVisible d \<and> \<not> hasSelection d \<and> \<not> pinned s" for s
  proof -
    from a have cur: "currentSelText d s = []"
      by (simp add: currentSelText_def anchor_cases)
    then have last: "lastSelectionText (update d s) = []"
      by (simp add: update_lastSelectionText)
    have fc: "lastSelectionText s \<noteq> [] \<longrightarrow> \<not> forceClosed (update d s)"
      using cur by (auto simp: update_forceClosed)
    have re: "currentSelText d' (update d s) = js_trim (selText sel)
           \<and> currentSelText d' (update d s) \<noteq> lastSelectionText (update d s)
           \<and> \<not> forceClosed (update d' (update d s))
           \<and> (\<not> isMouseDown s \<longrightarrow> boxDisplay (update d' (update d s)) = Block)"
      if b: "getSelection d' = Some sel \<and> js_trim (selText sel) \<noteq> []"
    proof -
      from b have tv: "snd (anchor d' (update d s))
          \<and> currentSelText d' (update d s) = js_trim (selText sel)"
        by (intro text_gives_visible) simp_all
      with b last show ?thesis
        by (simp add: update_forceClosed update_boxDisplay update_flags)
    qed
    from cur last fc re show ?thesis by blast
  qed
  have part2: "forceClosed (vc_step ForceClose s0)
         \<and> boxDisplay (run_events [ForceClose, Tick d'] s0) = DisplayNone
         \<and> \<not> forceClosed (run_events [ForceClose, Tick d] s0)
         \<and> boxDisplay (run_events [ForceClose, Tick d, Tick d'] s0) = Block"
    if c: "\<not> rectVisible d \<and> \<not> hasSelection d
       \<and> getSelection d' = Some sel \<and> js_trim (selText sel) = lastSelectionText s0
       \<and> lastSelectionText s0 \<noteq> [] \<and> \<not> isMouseDown s0"
  proof -
    let ?s = "vc_step ForceClose s0"
    have s: "forceClosed ?s \<and> \<not> pinned ?s \<and> \<not> insidePopup ?s \<and> \<not> isMouseDown ?s
        \<and> lastSelectionText ?s = lastSelectionText s0"
      using c by simp
    from c have tv: "currentSelText d' ?s = js_trim (selText sel)"
      using text_gives_visible [of d' sel ?s] by simp
    have direct: "boxDisplay (update d' ?s) = DisplayNone"
      using s tv c by (simp add: update_boxDisplay)
    from c s have p1: "\<not> rectVisible d \<and> \<not> hasSelection d \<and> \<not> pinned ?s" by simp
    from part1 [OF p1] c s
    have "\<not> forceClosed (update d ?s) \<and> boxDisplay (update d' (update d ?s)) = Block"
      by simp
    with direct s show ?thesis
      by (simp add: run_events_def)
  qed
  have part3: "getSelectionRect d' = Some r \<and> getSelection d' \<noteq> None \<and> \<not> rectVisible d' \<longrightarrow>
         anchor d' s = (Some (cornerRect d'), True)"
    using offscreen_is_cornered [of d' r s] by blast
  have part4: "forceClosed s \<and> getSelection d' = Some sel
       \<and> js_trim (selText sel) = lastSelectionText s \<and> lastSelectionText s \<noteq> [] \<longrightarrow>
         snd (anchor d' s) \<and> currentSelText d' s = lastSelectionText s
         \<and> forceClosed (update d' s) \<and> lastSelectionText (update d' s) = lastSelectionText s
         \<and> boxDisplay (update d' s) = DisplayNone"
    using same_text_tick [of s d' sel] by blast
  have part5: "forceClosed s \<and> lastSelectionText s \<noteq> []
       \<and> (\<forall>x\<in>set ds. \<exists>sel'. getSelection x = Some sel'
              \<and> js_trim (selText sel') = lastSelectionText s) \<longrightarrow>
         forceClosed (run_events (map Tick ds) s)
         \<and> lastSelectionText (run_events (map Tick ds) s) = lastSelectionText s"
    using same_text_run [of s ds] by blast
  from part1 [of s] part2 have part12:
    "(\<not> rectVisible d \<and> \<not> hasSelection d \<and> \<not> pinned s \<longrightarrow>
      currentSelText d s = []
      \<and> lastSelectionText (update d s) = []
      \<and> (lastSelectionText s \<noteq> [] \<longrightarrow> \<not> forceClosed (update d s))
      \<and> (getSelection d' = Some sel \<and> js_trim (selText sel) \<noteq> [] \<longrightarrow>
           currentSelText d' (update d s) = js_trim (selText sel)
           \<and> currentSelText d' (update d s) \<noteq> lastSelectionText (update d s)
           \<and> \<not> forceClosed (update d' (update d s))
           \<and> (\<not> isMouseDown s \<longrightarrow> boxDisplay (update d' (update d s)) = Block)))
   \<and> (\<not> rectVisible d \<and> \<not> hasSelection d
       \<and> getSelection d' = Some sel \<and> js_trim (selText sel) = lastSelectionText s0
       \<and> lastSelectionText s0 \<noteq> [] \<and> \<not> isMouseDown s0 \<longrightarrow>
         forceClosed (vc_step ForceClose s0)
         \<and> boxDisplay (run_events [ForceClose, Tick d'] s0) = DisplayNone
         \<and> \<not> forceClosed (run_events [ForceClose, Tick d] s0)
         \<and> boxDisplay (run_events [ForceClose, Tick d, Tick d'] s0) = Block)"
    by blast
  from part12 part3 part4 part5 show ?thesis by (intro conjI) blast+
qed


theorem empty_tick_forgets_text_witness:
  "\<not> rectVisible ex_dom_empty \<and> \<not> hasSelection ex_dom_empty
   \<and> lastSelectionText (update ex_dom init_vc) = js ''E=mc2''
   \<and> boxDisplay (run_events [ForceClose, Tick ex_dom] (update ex_dom init_vc)) = DisplayNone
   \<and> \<not> forceClosed (run_events [ForceClose, Tick ex_dom_empty] (update ex_dom init_vc))
   \<and> boxDisplay (run_events [ForceClose, Tick ex_dom_empty, Tick ex_dom] (update ex_dom init_vc))
       = Block
   \<and> \<not> rectVisible ex_dom_offscreen
   \<and> anchor ex_dom_offscreen init_vc = (Some (cornerRect ex_dom_offscreen), True)
   \<and> forceClosed (update ex_dom_offscreen (vc_step ForceClose (update ex_dom init_vc)))
   \<and> boxDisplay (update ex_dom_offscreen (vc_step ForceClose (update ex_dom init_vc)))
       = DisplayNone
   \<and> forceClosed (run_events (map Tick [ex_dom_offscreen, ex_dom])
        (vc_step ForceClose (update ex_dom init_vc)))"
proof -
  let ?s0 = "update ex_dom init_vc"
  have e: "\<not> rectVisible ex_dom_empty \<and> \<not> hasSelection ex_dom_empty"
    by (simp add: rectVisible_def getSelectionRect_def liveRange_def overlayRect_def
        hasSelection_def js_trim_def example_defs)
  have t: "js_trim (selText (the (getSelection ex_dom))) = js ''E=mc2''"
    by (simp add: js_trim_def js_def is_space_def example_defs)
  have s0: "lastSelectionText ?s0 = js ''E=mc2'' \<and> \<not> isMouseDown ?s0"
    by (simp add: update_lastSelectionText update_flags ex_currentSelText init_vc_def)
  have ne: "js ''E=mc2'' \<noteq> []" by (simp add: js_def)
  have g: "getSelection ex_dom = Some (the (getSelection ex_dom))"
    by (simp add: example_defs)
  let ?c = "vc_step ForceClose ?s0"
  have o: "getSelection ex_dom_offscreen = Some (the (getSelection ex_dom_offscreen))
      \<and> js_trim (selText (the (getSelection ex_dom_offscreen))) = js ''E=mc2''
      \<and> getSelectionRect ex_dom_offscreen = Some (ex_rect\<lparr>rtop := - 500, rbottom := - 480\<rparr>)
      \<and> \<not> rectVisible ex_dom_offscreen"
    by (simp add: rectVisible_def getSelectionRect_def liveRange_def rectIntersectsViewport_def
        js_trim_def js_def is_space_def example_defs)
  have c: "forceClosed ?c \<and> lastSelectionText ?c = js ''E=mc2''"
    using s0 by simp
  have first: "\<not> rectVisible ex_dom_empty \<and> \<not> hasSelection ex_dom_empty
      \<and> lastSelectionText ?s0 = js ''E=mc2''
      \<and> boxDisplay (run_events [ForceClose, Tick ex_dom] ?s0) = DisplayNone
      \<and> \<not> forceClosed (run_events [ForceClose, Tick ex_dom_empty] ?s0)
      \<and> boxDisplay (run_events [ForceClose, Tick ex_dom_empty, Tick ex_dom] ?s0) = Block"
    using empty_tick_forgets_text
      [of ex_dom_empty ?s0 ex_dom "the (getSelection ex_dom)" ?s0] e t s0 ne g
    by simp
  have o2: "getSelection ex_dom_offscreen \<noteq> None"
    by (simp add: example_defs)
  have corner: "anchor ex_dom_offscreen init_vc = (Some (cornerRect ex_dom_offscreen), True)"
    using empty_tick_forgets_text
      [where d' = ex_dom_offscreen and s = init_vc
        and r = "ex_rect\<lparr>rtop := - 500, rbottom := - 480\<rparr>"] o o2
    by blast
  have kept: "forceClosed (update ex_dom_offscreen ?c)
      \<and> boxDisplay (update ex_dom_offscreen ?c) = DisplayNone"
    using empty_tick_forgets_text
      [where d' = ex_dom_offscreen and s = ?c and sel = "the (getSelection ex_dom_offscreen)"]
      o c ne
    by metis
  have "\<forall>x\<in>set [ex_dom_offscreen, ex_dom]. \<exists>sel'. getSelection x = Some sel'
      \<and> js_trim (selText sel') = lastSelectionText ?c"
    using o t g c by auto
  with c ne have run: "forceClosed (run_events (map Tick [ex_dom_offscreen, ex_dom]) ?c)"
    using empty_tick_forgets_text [where s = ?c and ds = "[ex_dom_offscreen, ex_dom]"]
    by metis
  from first o corner kept run show ?thesis by simp
qed


section \<open>ContentPopup.jsx: the rate-limit gate, proofs\<close>

lemma rateGate_accepts:
  "length (recentOf now ts) < RATE_LIMIT \<Longrightarrow> rateGate now ts = Accepted (recentOf now ts @ [now])"
  by (simp add: rateGate_def recentOf_def Let_def)

lemma ceiling_thousand:
  fixes x :: int
  assumes "0 < x"
  shows "1 \<le> \<lceil>real_of_int x / 1000\<rceil> \<and> 1000 * (\<lceil>real_of_int x / 1000\<rceil> - 1) < x
         \<and> x \<le> 1000 * \<lceil>real_of_int x / 1000\<rceil>"
proof -
  let ?n = "\<lceil>real_of_int x / 1000\<rceil>"
  have a: "real_of_int x / 1000 \<le> of_int ?n" by (rule le_of_int_ceiling)
  have b: "of_int ?n - 1 < real_of_int x / 1000" by linarith
  from a have "real_of_int x \<le> 1000 * real_of_int ?n" by linarith
  then have "real_of_int x \<le> real_of_int (1000 * ?n)" by simp
  then have a': "x \<le> 1000 * ?n" by (simp only: of_int_le_iff)
  have "r - 1 < y / 1000 \<Longrightarrow> 1000 * (r - 1) < y" for r y :: real
    by (simp add: field_simps)
  from this [OF b] have "1000 * (real_of_int ?n - 1) < real_of_int x" .
  then have "real_of_int (1000 * (?n - 1)) < real_of_int x" by simp
  then have b': "1000 * (?n - 1) < x" by (simp only: of_int_less_iff)
  from assms a' have "0 < 1000 * ?n" by linarith
  then have "1 \<le> ?n" by linarith
  with a' b' show ?thesis by simp
qed

lemma rateGate_rejects:
  assumes "RATE_LIMIT \<le> length (recentOf now ts)"
  shows "\<exists>n. rateGate now ts = Rejected n \<and> 1 \<le> n
           \<and> 1000 * (n - 1) < Min (set (recentOf now ts)) + RATE_WINDOW_MS - now
           \<and> Min (set (recentOf now ts)) + RATE_WINDOW_MS - now \<le> 1000 * n"
proof -
  let ?recent = "recentOf now ts"
  let ?x = "Min (set ?recent) + RATE_WINDOW_MS - now"
  from assms have ne: "?recent \<noteq> []" by (auto simp: RATE_LIMIT_def)
  then have "Min (set ?recent) \<in> set ?recent" by (intro Min_in) simp_all
  then have "Min (set ?recent) > now - RATE_WINDOW_MS" by (simp add: recentOf_def)
  then have pos: "0 < ?x" by simp
  from ceiling_thousand [OF pos] have c: "1 \<le> \<lceil>real_of_int ?x / 1000\<rceil>"
    "1000 * (\<lceil>real_of_int ?x / 1000\<rceil> - 1) < ?x" "?x \<le> 1000 * \<lceil>real_of_int ?x / 1000\<rceil>"
    by simp_all
  have "rateGate now ts = Rejected (max 1 \<lceil>real_of_int ?x / 1000\<rceil>)"
    using assms by (simp add: rateGate_def recentOf_def Let_def)
  with c show ?thesis by (simp add: max_def)
qed

lemma rateGate_Rejected_iff:
  "(\<exists>n. rateGate now ts = Rejected n) = (RATE_LIMIT \<le> length (recentOf now ts))"
  by (auto simp: rateGate_def recentOf_def Let_def)

lemma explain_rejected:
  "liveText pg = Some t \<Longrightarrow> js_trim t \<noteq> [] \<Longrightarrow> rateGate now (requestTimes s) = Rejected n \<Longrightarrow>
   handleExplainClick lc pg now s = (s\<lparr>error := [], response := rateLimitMessage n\<rparr>, None)"
  by (simp add: handleExplainClick_def)

lemma topSearch_rejected:
  "js_trim v \<noteq> [] \<Longrightarrow> rateGate now (requestTimes s) = Rejected n \<Longrightarrow>
   handleTopSearchSubmit lc v pg now s = (s\<lparr>error := [], response := rateLimitMessage n\<rparr>, None)"
  by (simp add: handleTopSearchSubmit_def)

lemma deeper_rejected:
  "js_trim q \<noteq> [] \<Longrightarrow> rateGate now (requestTimes s) = Rejected n \<Longrightarrow>
   handleDeeperSubmit q now s = (s\<lparr>error := [], response := rateLimitMessage n\<rparr>, None)"
  by (simp add: handleDeeperSubmit_def)

lemma explain_accepted:
  "liveText pg = Some t \<Longrightarrow> js_trim t \<noteq> [] \<Longrightarrow> rateGate now (requestTimes s) = Accepted r \<Longrightarrow>
   snd (handleExplainClick lc pg now s)
     = Some (Prompt (js_trim t) (pageUrl pg) (pageHeading pg)
               (sliceAroundSelection lc (fullContext pg) (js_trim t)))
   \<and> history (fst (handleExplainClick lc pg now s))
     = history s @ [\<lparr>role = User, content = Prompt (js_trim t) (pageUrl pg) (pageHeading pg)
               (sliceAroundSelection lc (fullContext pg) (js_trim t))\<rparr>]
   \<and> requestTimes (fst (handleExplainClick lc pg now s)) = r"
  by (simp add: handleExplainClick_def Let_def callGemini_start_def buildPrompt_def)

lemma topSearch_accepted:
  "js_trim v \<noteq> [] \<Longrightarrow> rateGate now (requestTimes s) = Accepted r \<Longrightarrow>
   snd (handleTopSearchSubmit lc v pg now s)
     = Some (SearchPrompt (originalSelection s) (js_trim v) (pageUrl pg) (pageHeading pg)
               (sliceAroundSelection lc (fullContext pg) (originalSelection s)))
   \<and> history (fst (handleTopSearchSubmit lc v pg now s))
     = history s @ [\<lparr>role = User, content =
           SearchPrompt (originalSelection s) (js_trim v) (pageUrl pg) (pageHeading pg)
               (sliceAroundSelection lc (fullContext pg) (originalSelection s))\<rparr>]
   \<and> requestTimes (fst (handleTopSearchSubmit lc v pg now s)) = r"
  by (simp add: handleTopSearchSubmit_def Let_def callGemini_start_def)

lemma deeper_accepted:
  "js_trim q \<noteq> [] \<Longrightarrow> rateGate now (requestTimes s) = Accepted r \<Longrightarrow>
   snd (handleDeeperSubmit q now s) = Some (DeeperPrompt (history s) (js_trim q) (contexts s))
   \<and> history (fst (handleDeeperSubmit q now s))
     = history s @ [\<lparr>role = User, content = js_trim q\<rparr>]
   \<and> requestTimes (fst (handleDeeperSubmit q now s)) = r"
  by (simp add: handleDeeperSubmit_def Let_def callGemini_start_def)

lemma scenario_accept:
  "rateGate t1 [] = Accepted [t1]"
  by (simp add: rateGate_def Let_def RATE_LIMIT_def)

lemma recent_all:
  "\<forall>t\<in>set ts. now - RATE_WINDOW_MS < t \<Longrightarrow> recentOf now ts = ts"
  by (simp add: recentOf_def)

lemma short_accept:
  "\<forall>t\<in>set ts. now - RATE_WINDOW_MS < t \<Longrightarrow> length ts < RATE_LIMIT \<Longrightarrow>
   rateGate now ts = Accepted (ts @ [now])"
  using rateGate_accepts [of now ts] by (simp add: recent_all)

lemma recentOf_set: "set (recentOf now ts) = {t \<in> set ts. now - RATE_WINDOW_MS < t}"
  by (auto simp: recentOf_def)

lemma scenario_sixth:
  assumes "t1 \<le> t2" "t2 \<le> t3" "t3 \<le> t4" "t4 \<le> t5" "t5 \<le> t6" "t6 < t1 + RATE_WINDOW_MS"
  shows "rateGate t1 [] = Accepted [t1]"
    and "rateGate t2 [t1] = Accepted [t1, t2]"
    and "rateGate t3 [t1, t2] = Accepted [t1, t2, t3]"
    and "rateGate t4 [t1, t2, t3] = Accepted [t1, t2, t3, t4]"
    and "rateGate t5 [t1, t2, t3, t4] = Accepted [t1, t2, t3, t4, t5]"
    and "\<exists>n. rateGate t6 [t1, t2, t3, t4, t5] = Rejected n \<and> 1 \<le> n"
    and "\<forall>t7. t5 \<le> t7 \<and> t1 + RATE_WINDOW_MS \<le> t7 \<longrightarrow>
           (\<exists>r. rateGate t7 [t1, t2, t3, t4, t5] = Accepted r)"
proof -
  show "rateGate t1 [] = Accepted [t1]"
    using short_accept [of "[]" t1] by (simp add: RATE_LIMIT_def)
  show "rateGate t2 [t1] = Accepted [t1, t2]"
    using assms short_accept [of "[t1]" t2] by (simp add: RATE_LIMIT_def RATE_WINDOW_MS_def)
  show "rateGate t3 [t1, t2] = Accepted [t1, t2, t3]"
    using assms short_accept [of "[t1, t2]" t3] by (simp add: RATE_LIMIT_def RATE_WINDOW_MS_def)
  show "rateGate t4 [t1, t2, t3] = Accepted [t1, t2, t3, t4]"
    using assms short_accept [of "[t1, t2, t3]" t4]
    by (simp add: RATE_LIMIT_def RATE_WINDOW_MS_def)
  show "rateGate t5 [t1, t2, t3, t4] = Accepted [t1, t2, t3, t4, t5]"
    using assms short_accept [of "[t1, t2, t3, t4]" t5]
    by (simp add: RATE_LIMIT_def RATE_WINDOW_MS_def)
  have "recentOf t6 [t1, t2, t3, t4, t5] = [t1, t2, t3, t4, t5]"
    using assms by (intro recent_all) (simp add: RATE_WINDOW_MS_def)
  then have "RATE_LIMIT \<le> length (recentOf t6 [t1, t2, t3, t4, t5])"
    by (simp add: RATE_LIMIT_def)
  from rateGate_rejects [OF this]
  show "\<exists>n. rateGate t6 [t1, t2, t3, t4, t5] = Rejected n \<and> 1 \<le> n" by blast
  show "\<forall>t7. t5 \<le> t7 \<and> t1 + RATE_WINDOW_MS \<le> t7 \<longrightarrow>
           (\<exists>r. rateGate t7 [t1, t2, t3, t4, t5] = Accepted r)"
  proof (intro allI impI)
    fix t7 assume a: "t5 \<le> t7 \<and> t1 + RATE_WINDOW_MS \<le> t7"
    have "recentOf t7 [t1, t2, t3, t4, t5] = recentOf t7 [t2, t3, t4, t5]"
      using a by (simp add: recentOf_def)
    moreover have "length (recentOf t7 [t2, t3, t4, t5]) \<le> length [t2, t3, t4, t5]"
      unfolding recentOf_def by (rule length_filter_le)
    ultimately have "length (recentOf t7 [t1, t2, t3, t4, t5]) < RATE_LIMIT"
      by (simp add: RATE_LIMIT_def)
    from rateGate_accepts [OF this]
    show "\<exists>r. rateGate t7 [t1, t2, t3, t4, t5] = Accepted r" by blast
  qed
qed

lemma ex_page_text: "liveText ex_page = Some (js '' E=mc2 '') \<and> js_trim (js '' E=mc2 '') = js ''E=mc2''
  \<and> js ''E=mc2'' \<noteq> [] \<and> js_trim (js ''why'') = js ''why'' \<and> js ''why'' \<noteq> []"
  by (simp add: ex_page_def js_trim_def js_def is_space_def)

lemma ex_busy_gate:
  "rateGate 6000 (requestTimes ex_busy) = Rejected 55
   \<and> rateGate 61000 (requestTimes ex_busy) = Accepted [2000, 3000, 4000, 5000, 61000]"
  by (simp add: rateGate_def ex_busy_def init_popup_def RATE_LIMIT_def RATE_WINDOW_MS_def Let_def)

lemma number_55: "js_number 55 = js ''55'' \<and> js_number 42 = js ''42''"
  by (simp add: js_number_def js_def)

text \<open>
  Claim C3. Each of the three submit handlers, given a non-empty input, first keeps of
  the stored timestamps those strictly newer than \<open>now - 60000\<close>. With five or more of
  them it makes no request and shows \<open>Rate limit reached. Try again in n s\<close>, where
  \<open>n \<ge> 1\<close> is the time until the oldest of them leaves the window, in seconds rounded
  up; otherwise it stores the kept timestamps with \<open>now\<close> pushed and makes the request.
  Of six submissions within 60 seconds, starting from an empty window, the first five
  pass and the sixth is rejected with \<open>n \<ge> 1\<close>; once the first timestamp is 60000 ms
  old the sixth passes.
\<close>

theorem submission_gate:
  "set (recentOf now ts) = {t \<in> set ts. now - 60000 < t}
   \<and> (RATE_LIMIT \<le> length (recentOf now ts) \<longrightarrow>
        (\<exists>n. rateGate now ts = Rejected n \<and> 1 \<le> n
           \<and> 1000 * (n - 1) < Min (set (recentOf now ts)) + 60000 - now
           \<and> Min (set (recentOf now ts)) + 60000 - now \<le> 1000 * n))
   \<and> (length (recentOf now ts) < RATE_LIMIT \<longrightarrow>
        rateGate now ts = Accepted (recentOf now ts @ [now]))
   \<and> RATE_LIMIT = 5
   \<and> (liveText pg = Some t \<and> js_trim t \<noteq> [] \<longrightarrow>
        (\<forall>n. rateGate now (requestTimes s) = Rejected n \<longrightarrow>
           handleExplainClick lc pg now s =
             (s\<lparr>error := [],
                response := js ''Rate limit reached. Try again in '' @ js_number n @ js ''s''\<rparr>,
              None))
        \<and> (\<forall>r. rateGate now (requestTimes s) = Accepted r \<longrightarrow>
             snd (handleExplainClick lc pg now s) \<noteq> None
             \<and> requestTimes (fst (handleExplainClick lc pg now s)) = r))
   \<and> (js_trim v \<noteq> [] \<longrightarrow>
        (\<forall>n. rateGate now (requestTimes s) = Rejected n \<longrightarrow>
           handleTopSearchSubmit lc v pg now s =
             (s\<lparr>error := [],
                response := js ''Rate limit reached. Try again in '' @ js_number n @ js ''s''\<rparr>,
              None))
        \<and> (\<forall>r. rateGate now (requestTimes s) = Accepted r \<longrightarrow>
             snd (handleTopSearchSubmit lc v pg now s) \<noteq> None
             \<and> requestTimes (fst (handleTopSearchSubmit lc v pg now s)) = r))
   \<and> (js_trim q \<noteq> [] \<longrightarrow>
        (\<forall>n. rateGate now (requestTimes s) = Rejected n \<longrightarrow>
           handleDeeperSubmit q now s =
             (s\<lparr>error := [],
                response := js ''Rate limit reached. Try again in '' @ js_number n @ js ''s''\<rparr>,
              None))
        \<and> (\<forall>r. rateGate now (requestTimes s) = Accepted r \<longrightarrow>
             snd (handleDeeperSubmit q now s) \<noteq> None
             \<and> requestTimes (fst (handleDeeperSubmit q now s)) = r))
   \<and> (t1 \<le> t2 \<and> t2 \<le> t3 \<and> t3 \<le> t4 \<and> t4 \<le> t5 \<and> t5 \<le> t6 \<and> t6 < t1 + 60000 \<longrightarrow>
        rateGate t1 [] = Accepted [t1]
        \<and> rateGate t2 [t1] = Accepted [t1, t2]
        \<and> rateGate t3 [t1, t2] = Accepted [t1, t2, t3]
        \<and> rateGate t4 [t1, t2, t3] = Accepted [t1, t2, t3, t4]
        \<and> rateGate t5 [t1, t2, t3, t4] = Accepted [t1, t2, t3, t4, t5]
        \<and> (\<exists>n. rateGate t6 [t1, t2, t3, t4, t5] = Rejected n \<and> 1 \<le> n)
        \<and> (\<forall>t7. t5 \<le> t7 \<and> t1 + 60000 \<le> t7 \<longrightarrow>
              (\<exists>r. rateGate t7 [t1, t2, t3, t4, t5] = Accepted r)))"
proof -
  have w: "RATE_WINDOW_MS = 60000" by (simp add: RATE_WINDOW_MS_def)
  have p1: "set (recentOf now ts) = {t \<in> set ts. now - 60000 < t}"
    using recentOf_set [of now ts] by (simp add: w)
  have p2: "RATE_LIMIT \<le> length (recentOf now ts) \<longrightarrow>
        (\<exists>n. rateGate now ts = Rejected n \<and> 1 \<le> n
           \<and> 1000 * (n - 1) < Min (set (recentOf now ts)) + 60000 - now
           \<and> Min (set (recentOf now ts)) + 60000 - now \<le> 1000 * n)"
    using rateGate_rejects [of now ts] by (simp add: w)
  have p3: "length (recentOf now ts) < RATE_LIMIT \<longrightarrow>
        rateGate now ts = Accepted (recentOf now ts @ [now])"
    using rateGate_accepts by blast
  have p4: "RATE_LIMIT = 5" by (simp add: RATE_LIMIT_def)
  have p5: "liveText pg = Some t \<and> js_trim t \<noteq> [] \<longrightarrow>
        (\<forall>n. rateGate now (requestTimes s) = Rejected n \<longrightarrow>
           handleExplainClick lc pg now s =
             (s\<lparr>error := [],
                response := js ''Rate limit reached. Try again in '' @ js_number n @ js ''s''\<rparr>,
              None))
        \<and> (\<forall>r. rateGate now (requestTimes s) = Accepted r \<longrightarrow>
             snd (handleExplainClick lc pg now s) \<noteq> None
             \<and> requestTimes (fst (handleExplainClick lc pg now s)) = r)"
    using explain_rejected [of pg t now s _ lc] explain_accepted [of pg t now s _ lc]
    by (simp add: rateLimitMessage_def)
  have p6: "js_trim v \<noteq> [] \<longrightarrow>
        (\<forall>n. rateGate now (requestTimes s) = Rejected n \<longrightarrow>
           handleTopSearchSubmit lc v pg now s =
             (s\<lparr>error := [],
                response := js ''Rate limit reached. Try again in '' @ js_number n @ js ''s''\<rparr>,
              None))
        \<and> (\<forall>r. rateGate now (requestTimes s) = Accepted r \<longrightarrow>
             snd (handleTopSearchSubmit lc v pg now s) \<noteq> None
             \<and> requestTimes (fst (handleTopSearchSubmit lc v pg now s)) = r)"
    using topSearch_rejected [of v now s _ lc pg] topSearch_accepted [of v now s _ lc pg]
    by (simp add: rateLimitMessage_def)
  have p7: "js_trim q \<noteq> [] \<longrightarrow>
        (\<forall>n. rateGate now (requestTimes s) = Rejected n \<longrightarrow>
           handleDeeperSubmit q now s =
             (s\<lparr>error := [],
                response := js ''Rate limit reached. Try again in '' @ js_number n @ js ''s''\<rparr>,
              None))
        \<and> (\<forall>r. rateGate now (requestTimes s) = Accepted r \<longrightarrow>
             snd (handleDeeperSubmit q now s) \<noteq> None
             \<and> requestTimes (fst (handleDeeperSubmit q now s)) = r)"
    using deeper_rejected [of q now s] deeper_accepted [of q now s]
    by (simp add: rateLimitMessage_def)
  have p8: "t1 \<le> t2 \<and> t2 \<le> t3 \<and> t3 \<le> t4 \<and> t4 \<le> t5 \<and> t5 \<le> t6 \<and> t6 < t1 + 60000 \<longrightarrow>
        rateGate t1 [] = Accepted [t1]
        \<and> rateGate t2 [t1] = Accepted [t1, t2]
        \<and> rateGate t3 [t1, t2] = Accepted [t1, t2, t3]
        \<and> rateGate t4 [t1, t2, t3] = Accepted [t1, t2, t3, t4]
        \<and> rateGate t5 [t1, t2, t3, t4] = Accepted [t1, t2, t3, t4, t5]
        \<and> (\<exists>n. rateGate t6 [t1, t2, t3, t4, t5] = Rejected n \<and> 1 \<le> n)
        \<and> (\<forall>t7. t5 \<le> t7 \<and> t1 + 60000 \<le> t7 \<longrightarrow>
              (\<exists>r. rateGate t7 [t1, t2, t3, t4, t5] = Accepted r))"
    using scenario_sixth [of t1 t2 t3 t4 t5 t6] unfolding w by blast
  from p1 p2 p3 p4 p5 p6 p7 p8 show ?thesis by blast
qed

theorem submission_gate_witness:
  "liveText ex_page = Some (js '' E=mc2 '') \<and> js_trim (js '' E=mc2 '') \<noteq> []
   \<and> rateGate 6000 (requestTimes ex_busy) = Rejected 55
   \<and> handleExplainClick ascii_lower ex_page 6000 ex_busy =
        (ex_busy\<lparr>error := [], response := js ''Rate limit reached. Try again in 55s''\<rparr>, None)
   \<and> handleDeeperSubmit (js ''why'') 6000 ex_busy =
        (ex_busy\<lparr>error := [], response := js ''Rate limit reached. Try again in 55s''\<rparr>, None)
   \<and> rateGate 61000 (requestTimes ex_busy) = Accepted [2000, 3000, 4000, 5000, 61000]
   \<and> snd (handleExplainClick ascii_lower ex_page 61000 ex_busy) \<noteq> None
   \<and> requestTimes (fst (handleExplainClick ascii_lower ex_page 61000 ex_busy))
        = [2000, 3000, 4000, 5000, 61000]
   \<and> rateGate 1000 [] = Accepted [1000]
   \<and> rateGate 5000 [1000, 2000, 3000, 4000] = Accepted [1000, 2000, 3000, 4000, 5000]
   \<and> (\<exists>n. rateGate 6000 [1000, 2000, 3000, 4000, 5000] = Rejected n \<and> 1 \<le> n)
   \<and> (\<exists>r. rateGate 61000 [1000, 2000, 3000, 4000, 5000] = Accepted r)"
proof -
  have m: "js ''Rate limit reached. Try again in '' @ js ''55'' @ js ''s''
      = js ''Rate limit reached. Try again in 55s''"
    by (simp add: js_def)
  note g1 = submission_gate [of 6000 "requestTimes ex_busy" ex_page "js '' E=mc2 ''" ex_busy
      ascii_lower "js ''why''" "js ''why''" 1000 2000 3000 4000 5000 6000]
  note g2 = submission_gate [of 61000 "requestTimes ex_busy" ex_page "js '' E=mc2 ''" ex_busy
      ascii_lower "js ''why''" "js ''why''" 1000 2000 3000 4000 5000 6000]
  have sc: "(1000::int) \<le> 2000 \<and> (2000::int) \<le> 3000 \<and> (3000::int) \<le> 4000
      \<and> (4000::int) \<le> 5000 \<and> (5000::int) \<le> 6000 \<and> (6000::int) < 1000 + 60000
      \<and> (5000::int) \<le> 61000 \<and> (1000::int) + 60000 \<le> 61000"
    by simp
  from g1 ex_page_text ex_busy_gate number_55 m
  have r1: "handleExplainClick ascii_lower ex_page 6000 ex_busy =
        (ex_busy\<lparr>error := [], response := js ''Rate limit reached. Try again in 55s''\<rparr>, None)
      \<and> handleDeeperSubmit (js ''why'') 6000 ex_busy =
        (ex_busy\<lparr>error := [], response := js ''Rate limit reached. Try again in 55s''\<rparr>, None)"
    by simp
  from g2 ex_page_text ex_busy_gate
  have r2: "snd (handleExplainClick ascii_lower ex_page 61000 ex_busy) \<noteq> None
      \<and> requestTimes (fst (handleExplainClick ascii_lower ex_page 61000 ex_busy))
        = [2000, 3000, 4000, 5000, 61000]"
    by simp
  from g1 sc
  have r3: "rateGate 1000 [] = Accepted [1000]
      \<and> rateGate 5000 [1000, 2000, 3000, 4000] = Accepted [1000, 2000, 3000, 4000, 5000]
      \<and> (\<exists>n. rateGate 6000 [1000, 2000, 3000, 4000, 5000] = Rejected n \<and> 1 \<le> n)
      \<and> (\<exists>r. rateGate 61000 [1000, 2000, 3000, 4000, 5000] = Accepted r)"
    by blast
  from r1 r2 r3 ex_page_text ex_busy_gate show ?thesis by simp
qed

text \<open>
  Claim C9. When the gate rejects, the handler returns the state with \<open>error\<close> set to the
  empty string and \<open>response\<close> set to the message, and makes no request: the stored
  timestamps (not even pruned), the history and every other field are as before.
\<close>

theorem rejection_leaves_state:
  "rateGate now (requestTimes s) = Rejected n \<longrightarrow>
     (liveText pg = Some t \<and> js_trim t \<noteq> [] \<longrightarrow>
        handleExplainClick lc pg now s = (s\<lparr>error := [], response := rateLimitMessage n\<rparr>, None))
     \<and> (js_trim v \<noteq> [] \<longrightarrow>
        handleTopSearchSubmit lc v pg now s
          = (s\<lparr>error := [], response := rateLimitMessage n\<rparr>, None))
     \<and> (js_trim q \<noteq> [] \<longrightarrow>
        handleDeeperSubmit q now s = (s\<lparr>error := [], response := rateLimitMessage n\<rparr>, None))
     \<and> requestTimes (s\<lparr>error := [], response := rateLimitMessage n\<rparr>) = requestTimes s
     \<and> history (s\<lparr>error := [], response := rateLimitMessage n\<rparr>) = history s
     \<and> error (s\<lparr>error := [], response := rateLimitMessage n\<rparr>) = []
     \<and> response (s\<lparr>error := [], response := rateLimitMessage n\<rparr>) = rateLimitMessage n
     \<and> (s\<lparr>error := [], response := rateLimitMessage n\<rparr>)\<lparr>error := error s, response := response s\<rparr> = s"
  using explain_rejected [of pg t now s n lc] topSearch_rejected [of v now s n lc pg]
    deeper_rejected [of q now s n]
  by simp

theorem rejection_leaves_state_witness:
  "rateGate 6000 (requestTimes ex_busy) = Rejected 55
   \<and> handleExplainClick ascii_lower ex_page 6000 ex_busy
       = (ex_busy\<lparr>error := [], response := rateLimitMessage 55\<rparr>, None)
   \<and> handleTopSearchSubmit ascii_lower (js ''why'') ex_page 6000 ex_busy
       = (ex_busy\<lparr>error := [], response := rateLimitMessage 55\<rparr>, None)
   \<and> handleDeeperSubmit (js ''why'') 6000 ex_busy
       = (ex_busy\<lparr>error := [], response := rateLimitMessage 55\<rparr>, None)
   \<and> requestTimes (fst (handleExplainClick ascii_lower ex_page 6000 ex_busy))
       = [1000, 2000, 3000, 4000, 5000]
   \<and> history (fst (handleExplainClick ascii_lower ex_page 6000 ex_busy)) = []
   \<and> error (fst (handleExplainClick ascii_lower ex_page 6000 ex_busy)) = []"
proof -
  note r = rejection_leaves_state [of 6000 ex_busy 55 ex_page "js '' E=mc2 ''" ascii_lower
      "js ''why''" "js ''why''"]
  have b: "requestTimes ex_busy = [1000, 2000, 3000, 4000, 5000] \<and> history ex_busy = []"
    by (simp add: ex_busy_def init_popup_def)
  from r ex_page_text ex_busy_gate b show ?thesis by simp
qed


section \<open>ContentPopup.jsx: the server limit, proofs\<close>

lemmas popup_defs = handleExplainClick_def handleTopSearchSubmit_def handleDeeperSubmit_def
  callGemini_start_def buildPrompt_def rateGate_def RATE_LIMIT_def RATE_WINDOW_MS_def
  onToken_def onDone_def appendAssistant_def refreshLimit_def deeperAttempt_def
  responseOpen_def run_popup_def init_popup_def onToken_buffer_def syncResponseRef_def

lemma ex_loading_eval:
  "error ex_loading = [] \<and> requestTimes ex_loading = [1000] \<and> loading ex_loading
   \<and> history ex_loading = [\<lparr>role = User, content = ex_prompt\<rparr>]"
  by (simp add: ex_loading_def ex_prompt_def ex_page_def popup_defs Let_def js_trim_def js_def
      is_space_def)

lemma rateLimited_eq:
  "(rateLimited (secondsRemaining st) s)\<lparr>loading := False\<rparr>
     = s\<lparr>response := tooManyMessage (limitSeconds st), appendedOnce := True,
          limitReached := limitSeconds st, loading := False\<rparr>"
  by (simp add: rateLimited_def limitSeconds_def Let_def)

lemma onError_429:
  "is429 m \<Longrightarrow> onError m st fb s
     = s\<lparr>response := tooManyMessage (limitSeconds st), appendedOnce := True,
          limitReached := limitSeconds st, loading := False\<rparr>"
  by (simp add: onError_def rateLimited_eq)

lemma onError_fallback_429:
  "\<not> is429 m \<Longrightarrow> is429 e2 \<Longrightarrow> onError m st (FallbackError e2) s
     = s\<lparr>response := tooManyMessage (limitSeconds st), appendedOnce := True,
          limitReached := limitSeconds st, loading := False\<rparr>"
  by (simp add: onError_def rateLimited_eq)

lemma outerCatch_429:
  "is429 m \<Longrightarrow> outerCatch m st s
     = s\<lparr>response := tooManyMessage (limitSeconds st), appendedOnce := True,
          limitReached := limitSeconds st, loading := False\<rparr>"
  by (simp add: outerCatch_def rateLimited_eq)

lemma is429_examples:
  "is429 (js ''Gemini stream failed: 429 Too Many Requests'')
   \<and> is429 (js ''Gemini request failed: 429 '')
   \<and> is429 (js ''too many requests'')
   \<and> \<not> is429 (js ''Gemini stream failed: 500 Internal Server Error'')"
  by (simp add: is429_def tooManyRequests_at_def js_def is_word_def is_space_def)

lemma tooManyMessage_42:
  "tooManyMessage 42 = js ''Too many requests, please try again in 42 seconds.''"
  by (simp add: tooManyMessage_def js_number_def js_def)

lemma countdown_funpow:
  "0 \<le> limitReached s \<Longrightarrow>
   (countdown ^^ k) s = s\<lparr>limitReached := max 0 (limitReached s - int k)\<rparr>"
proof (induction k)
  case 0
  then show ?case by simp
next
  case (Suc k)
  then show ?case
    by (auto simp: countdown_def timerRunning_def countdownTick_def Let_def max_def)
qed

lemma deeperAttempt_blocked:
  "1 \<le> limitReached s \<Longrightarrow>
   snd (deeperAttempt v now st s) = None
   \<and> history (fst (deeperAttempt v now st s)) = history s"
  by (simp add: deeperAttempt_def showLimitReachedOnce_def Let_def)

lemma deeperAttempt_open:
  "limitReached s = 0 \<Longrightarrow>
   deeperAttempt v now st s
     = (if js_trim v \<noteq> [] then handleDeeperSubmit (js_trim v) now s else (s, None))"
  by (simp add: deeperAttempt_def Let_def)

text \<open>
  Claim C5. A failure whose message matches the 429 pattern, in \<open>onError\<close>, in its
  fallback or in the \<open>catch\<close> of \<open>callGemini\<close>, changes only the response, the limit
  counter and the two flags: no error is set and the history is not touched. The response
  is \<open>Too many requests, please try again in N seconds.\<close> with \<open>N\<close> the fetched
  \<open>secondsRemaining\<close> (60 when that is 0), and the counter is set to \<open>N\<close>. The countdown
  takes 1 from a non-negative counter at each tick while it is positive: from 42 it is
  \<open>42 - k\<close> after \<open>k < 42\<close> ticks and 0 after 42. While the counter is 1 or more a submit
  on the deeper search bar makes no request; at 0 it goes to \<open>handleDeeperSubmit\<close>.
\<close>

theorem server_rate_limit:
  "(is429 m \<longrightarrow>
      onError m st fb s
        = s\<lparr>response := tooManyMessage (limitSeconds st), appendedOnce := True,
             limitReached := limitSeconds st, loading := False\<rparr>
      \<and> outerCatch m st s
        = s\<lparr>response := tooManyMessage (limitSeconds st), appendedOnce := True,
             limitReached := limitSeconds st, loading := False\<rparr>
      \<and> error (onError m st fb s) = error s \<and> history (onError m st fb s) = history s
      \<and> error (outerCatch m st s) = error s \<and> history (outerCatch m st s) = history s)
   \<and> (\<not> is429 m \<and> is429 e2 \<longrightarrow>
      onError m st (FallbackError e2) s
        = s\<lparr>response := tooManyMessage (limitSeconds st), appendedOnce := True,
             limitReached := limitSeconds st, loading := False\<rparr>)
   \<and> limitSeconds st = (if secondsRemaining st = 0 then 60 else secondsRemaining st)
   \<and> tooManyMessage n
        = js ''Too many requests, please try again in '' @ js_number n @ js '' seconds.''
   \<and> is429 (js ''Gemini stream failed: 429 Too Many Requests'')
   \<and> (is429 m \<and> secondsRemaining st = 42 \<longrightarrow>
        response (onError m st fb s) = js ''Too many requests, please try again in 42 seconds.''
        \<and> limitReached (onError m st fb s) = 42
        \<and> limitReached ((countdown ^^ 42) (onError m st fb s)) = 0
        \<and> (\<forall>k<42. limitReached ((countdown ^^ k) (onError m st fb s)) = 42 - int k))
   \<and> (0 \<le> limitReached s \<longrightarrow>
        (countdown ^^ k) s = s\<lparr>limitReached := max 0 (limitReached s - int k)\<rparr>
        \<and> timerRunning ((countdown ^^ k) s) = (int k < limitReached s))
   \<and> (1 \<le> limitReached s \<longrightarrow>
        snd (deeperAttempt v now st s) = None
        \<and> history (fst (deeperAttempt v now st s)) = history s)
   \<and> (limitReached s = 0 \<longrightarrow>
        deeperAttempt v now st s
          = (if js_trim v \<noteq> [] then handleDeeperSubmit (js_trim v) now s else (s, None)))"
proof -
  have p1: "is429 m \<longrightarrow>
      onError m st fb s
        = s\<lparr>response := tooManyMessage (limitSeconds st), appendedOnce := True,
             limitReached := limitSeconds st, loading := False\<rparr>
      \<and> outerCatch m st s
        = s\<lparr>response := tooManyMessage (limitSeconds st), appendedOnce := True,
             limitReached := limitSeconds st, loading := False\<rparr>
      \<and> error (onError m st fb s) = error s \<and> history (onError m st fb s) = history s
      \<and> error (outerCatch m st s) = error s \<and> history (outerCatch m st s) = history s"
    by (simp add: onError_429 outerCatch_429)
  have p2: "\<not> is429 m \<and> is429 e2 \<longrightarrow>
      onError m st (FallbackError e2) s
        = s\<lparr>response := tooManyMessage (limitSeconds st), appendedOnce := True,
             limitReached := limitSeconds st, loading := False\<rparr>"
    by (simp add: onError_fallback_429)
  have p3: "limitSeconds st = (if secondsRemaining st = 0 then 60 else secondsRemaining st)"
    by (simp add: limitSeconds_def)
  have p4: "tooManyMessage n
        = js ''Too many requests, please try again in '' @ js_number n @ js '' seconds.''"
    by (simp add: tooManyMessage_def)
  have p5: "is429 (js ''Gemini stream failed: 429 Too Many Requests'')"
    using is429_examples by simp
  have p6: "is429 m \<and> secondsRemaining st = 42 \<longrightarrow>
        response (onError m st fb s) = js ''Too many requests, please try again in 42 seconds.''
        \<and> limitReached (onError m st fb s) = 42
        \<and> limitReached ((countdown ^^ 42) (onError m st fb s)) = 0
        \<and> (\<forall>k<42. limitReached ((countdown ^^ k) (onError m st fb s)) = 42 - int k)"
  proof
    assume a: "is429 m \<and> secondsRemaining st = 42"
    then have l: "limitSeconds st = 42" by (simp add: limitSeconds_def)
    let ?s = "onError m st fb s"
    from a l have r: "response ?s = js ''Too many requests, please try again in 42 seconds.''"
      and lr: "limitReached ?s = 42"
      by (simp_all add: onError_429 tooManyMessage_42)
    from lr have c: "(countdown ^^ k) ?s = ?s\<lparr>limitReached := max 0 (42 - int k)\<rparr>" for k
      using countdown_funpow [of ?s k] by simp
    have "limitReached ((countdown ^^ 42) ?s) = 0" by (simp add: c)
    moreover have "\<forall>k<42. limitReached ((countdown ^^ k) ?s) = 42 - int k"
      by (simp add: c)
    ultimately show "response ?s = js ''Too many requests, please try again in 42 seconds.''
        \<and> limitReached ?s = 42
        \<and> limitReached ((countdown ^^ 42) ?s) = 0
        \<and> (\<forall>k<42. limitReached ((countdown ^^ k) ?s) = 42 - int k)"
      using r lr by blast
  qed
  have p7: "0 \<le> limitReached s \<longrightarrow>
        (countdown ^^ k) s = s\<lparr>limitReached := max 0 (limitReached s - int k)\<rparr>
        \<and> timerRunning ((countdown ^^ k) s) = (int k < limitReached s)"
    by (auto simp: countdown_funpow timerRunning_def)
  have p8: "1 \<le> limitReached s \<longrightarrow>
        snd (deeperAttempt v now st s) = None
        \<and> history (fst (deeperAttempt v now st s)) = history s"
    using deeperAttempt_blocked by blast
  have p9: "limitReached s = 0 \<longrightarrow>
        deeperAttempt v now st s
          = (if js_trim v \<noteq> [] then handleDeeperSubmit (js_trim v) now s else (s, None))"
    using deeperAttempt_open by blast
  from p1 p2 p3 p4 p5 p6 p7 p8 p9 show ?thesis by blast
qed

theorem server_rate_limit_witness:
  "is429 (js ''Gemini stream failed: 429 Too Many Requests'')
   \<and> secondsRemaining ex_status = 42
   \<and> response (onError (js ''Gemini stream failed: 429 Too Many Requests'') ex_status
        (FallbackText []) ex_loading)
       = js ''Too many requests, please try again in 42 seconds.''
   \<and> error (onError (js ''Gemini stream failed: 429 Too Many Requests'') ex_status
        (FallbackText []) ex_loading) = []
   \<and> history (onError (js ''Gemini stream failed: 429 Too Many Requests'') ex_status
        (FallbackText []) ex_loading) = [\<lparr>role = User, content = ex_prompt\<rparr>]
   \<and> limitReached ((countdown ^^ 41) (onError (js ''Gemini stream failed: 429 Too Many Requests'')
        ex_status (FallbackText []) ex_loading)) = 1
   \<and> limitReached ((countdown ^^ 42) (onError (js ''Gemini stream failed: 429 Too Many Requests'')
        ex_status (FallbackText []) ex_loading)) = 0
   \<and> snd (deeperAttempt (js ''why'') 70000 ex_idle
        (onError (js ''Gemini stream failed: 429 Too Many Requests'') ex_status
           (FallbackText []) ex_loading)) = None
   \<and> snd (deeperAttempt (js ''why'') 70000 ex_idle
        ((countdown ^^ 42) (onError (js ''Gemini stream failed: 429 Too Many Requests'')
           ex_status (FallbackText []) ex_loading))) \<noteq> None"
proof -
  let ?m = "js ''Gemini stream failed: 429 Too Many Requests''"
  let ?s = "onError ?m ex_status (FallbackText []) ex_loading"
  note t = server_rate_limit [where m = ?m and st = ex_status and fb = "FallbackText []"
      and s = ex_loading and k = 42]
  have st: "secondsRemaining ex_status = 42" by (simp add: ex_status_def)
  from t have m: "is429 ?m" by blast
  from t m st have a: "response ?s = js ''Too many requests, please try again in 42 seconds.''"
    "limitReached ?s = 42" "limitReached ((countdown ^^ 42) ?s) = 0"
    "\<forall>k<42. limitReached ((countdown ^^ k) ?s) = 42 - int k"
    "error ?s = error ex_loading" "history ?s = history ex_loading"
    by blast+
  from a(4) have k41: "limitReached ((countdown ^^ 41) ?s) = 1" by simp
  note u = server_rate_limit [where s = ?s and v = "js ''why''" and now = 70000
      and st = ex_idle]
  from u a(2) have blocked: "snd (deeperAttempt (js ''why'') 70000 ex_idle ?s) = None" by simp
  let ?z = "(countdown ^^ 42) ?s"
  have z: "?z = ?s\<lparr>limitReached := 0\<rparr>"
    using countdown_funpow [of ?s 42] a(2) by simp
  have "requestTimes ?z = requestTimes ?s"
    by (subst z) simp
  also have "\<dots> = requestTimes ex_loading"
    using m by (simp add: onError_429)
  finally have rt: "requestTimes ?z = [1000]"
    using ex_loading_eval by simp
  have g: "rateGate 70000 (requestTimes ?z) = Accepted [70000]"
    unfolding rt by (simp add: rateGate_def RATE_LIMIT_def RATE_WINDOW_MS_def)
  note w = server_rate_limit [where s = ?z and v = "js ''why''" and now = 70000
      and st = ex_idle]
  from w a(3) ex_page_text
  have "deeperAttempt (js ''why'') 70000 ex_idle ?z = handleDeeperSubmit (js ''why'') 70000 ?z"
    by simp
  moreover from deeper_accepted [OF _ g, of "js ''why''"] ex_page_text
  have "snd (handleDeeperSubmit (js ''why'') 70000 ?z) \<noteq> None" by simp
  ultimately have resumed: "snd (deeperAttempt (js ''why'') 70000 ex_idle ?z) \<noteq> None" by simp
  from m st a k41 blocked resumed ex_loading_eval show ?thesis by simp
qed



section \<open>ContentPopup.jsx: the conversation history, proofs\<close>

lemma DeeperPrompt_longer: "length q < length (DeeperPrompt h q c)"
  by (simp add: DeeperPrompt_def js_def)

lemma DeeperPrompt_not_raw: "DeeperPrompt h q c \<noteq> q"
  using DeeperPrompt_longer [of q h c] by auto

lemma req_step_locked:
  "appendedOnce s \<Longrightarrow> history (req_step ev s) = history s \<and> appendedOnce (req_step ev s)"
  by (cases ev)
     (auto simp: onToken_def onDone_def appendAssistant_def refreshLimit_def onError_def
        rateLimited_def outerCatch_def syncResponseRef_def Let_def split: fallback.splits)

lemma req_step_append:
  "(history (req_step ev s) = history s)
   \<or> (\<exists>x. history (req_step ev s) = history s @ [\<lparr>role = Assistant, content = x\<rparr>]
         \<and> appendedOnce (req_step ev s))"
  by (cases ev)
     (auto simp: onToken_def onDone_def appendAssistant_def refreshLimit_def onError_def
        rateLimited_def outerCatch_def syncResponseRef_def Let_def split: fallback.splits)

lemma run_request_Cons: "run_request (ev # evs) s = run_request evs (req_step ev s)"
  by (simp add: run_request_def)

lemma run_request_locked:
  "appendedOnce s \<Longrightarrow> history (run_request evs s) = history s"
proof (induction evs arbitrary: s)
  case Nil
  show ?case by (simp add: run_request_def)
next
  case (Cons ev evs)
  from req_step_locked [OF Cons.prems, of ev]
  have h: "history (req_step ev s) = history s" and a: "appendedOnce (req_step ev s)"
    by simp_all
  from Cons.IH [OF a] h show ?case by (simp add: run_request_Cons)
qed

lemma run_request_once:
  "\<exists>ys. history (run_request evs s) = history s @ ys \<and> length ys \<le> 1
        \<and> (\<forall>m\<in>set ys. role m = Assistant)"
proof (induction evs arbitrary: s)
  case Nil
  show ?case by (simp add: run_request_def)
next
  case (Cons ev evs)
  from req_step_append [of ev s] show ?case
  proof
    assume h: "history (req_step ev s) = history s"
    from Cons.IH [of "req_step ev s"] h show ?thesis by (simp add: run_request_Cons)
  next
    assume "\<exists>x. history (req_step ev s) = history s @ [\<lparr>role = Assistant, content = x\<rparr>]
         \<and> appendedOnce (req_step ev s)"
    then obtain x where h: "history (req_step ev s) = history s @ [\<lparr>role = Assistant, content = x\<rparr>]"
      and a: "appendedOnce (req_step ev s)" by blast
    from run_request_locked [OF a, of evs] h
    have "history (run_request (ev # evs) s) = history s @ [\<lparr>role = Assistant, content = x\<rparr>]"
      by (simp add: run_request_Cons)
    then show ?thesis by simp
  qed
qed

lemma handlers_extend:
  "\<exists>ys. history (fst (handleExplainClick lc pg now s)) = history s @ ys \<and> length ys \<le> 1"
  "\<exists>ys. history (fst (handleTopSearchSubmit lc v pg now s)) = history s @ ys \<and> length ys \<le> 1"
  "\<exists>ys. history (fst (handleDeeperSubmit q now s)) = history s @ ys \<and> length ys \<le> 1"
  by (auto simp: handleExplainClick_def handleTopSearchSubmit_def handleDeeperSubmit_def
      callGemini_start_def Let_def split: gate.splits option.splits)

lemma deeperAttempt_extends:
  "\<exists>ys. history (fst (deeperAttempt v now st s)) = history s @ ys \<and> length ys \<le> 1"
proof (cases "1 \<le> limitReached s")
  case True
  then show ?thesis by (simp add: deeperAttempt_blocked)
next
  case False
  then show ?thesis
    using handlers_extend(3) [of "js_trim v" now s]
    by (auto simp: deeperAttempt_def Let_def)
qed

lemma popup_step_extends:
  "ev \<noteq> Reset \<Longrightarrow> \<exists>ys. history (popup_step lc ev s) = history s @ ys \<and> length ys \<le> 1"
proof (cases ev)
  case (ExplainClick pg now)
  then show ?thesis using handlers_extend(1) by simp
next
  case (TopSearchSubmit v pg now)
  then show ?thesis using handlers_extend(2) by simp
next
  case (DeeperAttempt v now st)
  then show ?thesis using deeperAttempt_extends [of v now st s] by simp
next
  case (Request rev)
  from req_step_append [of rev s] Request show ?thesis by auto
next
  case CountdownTick
  then show ?thesis by (simp add: countdown_def)
next
  case LimitEffect
  then show ?thesis by (simp add: limitEffect_def)
next
  case Reset
  assume "ev \<noteq> Reset"
  with Reset show ?thesis by simp
qed

lemma run_popup_Cons: "run_popup lc (ev # evs) s = run_popup lc evs (popup_step lc ev s)"
  by (simp add: run_popup_def)

lemma run_popup_first:
  "Reset \<notin> set evs \<Longrightarrow> history s = m # ms \<Longrightarrow>
   \<exists>ys. history (run_popup lc evs s) = m # ms @ ys"
proof (induction evs arbitrary: s ms)
  case Nil
  then show ?case by (simp add: run_popup_def)
next
  case (Cons ev evs)
  from Cons.prems have ne: "ev \<noteq> Reset" and rest: "Reset \<notin> set evs" by auto
  from popup_step_extends [OF ne, of lc s] obtain ys
    where "history (popup_step lc ev s) = history s @ ys" by blast
  with Cons.prems have h: "history (popup_step lc ev s) = m # (ms @ ys)" by simp
  from Cons.IH [OF rest h] show ?case by (auto simp: run_popup_Cons)
qed

lemma explain_first:
  assumes "history s = []" "liveText pg = Some t" "js_trim t \<noteq> []"
    "rateGate now (requestTimes s) = Accepted r" "Reset \<notin> set evs"
  shows "\<exists>ys. history (run_popup lc (ExplainClick pg now # evs) s) =
           \<lparr>role = User, content = Prompt (js_trim t) (pageUrl pg) (pageHeading pg)
              (sliceAroundSelection lc (fullContext pg) (js_trim t))\<rparr> # ys"
proof -
  let ?m = "\<lparr>role = User, content = Prompt (js_trim t) (pageUrl pg) (pageHeading pg)
              (sliceAroundSelection lc (fullContext pg) (js_trim t))\<rparr>"
  from explain_accepted [OF assms(2,3,4), of lc] assms(1)
  have h: "history (popup_step lc (ExplainClick pg now) s) = ?m # []" by simp
  from run_popup_first [OF assms(5) h, of lc] show ?thesis
    by (simp add: run_popup_Cons)
qed

lemma topSearch_first:
  assumes "history s = []" "js_trim v \<noteq> []"
    "rateGate now (requestTimes s) = Accepted r" "Reset \<notin> set evs"
  shows "\<exists>ys. history (run_popup lc (TopSearchSubmit v pg now # evs) s) =
           \<lparr>role = User, content =
              SearchPrompt (originalSelection s) (js_trim v) (pageUrl pg) (pageHeading pg)
                (sliceAroundSelection lc (fullContext pg) (originalSelection s))\<rparr> # ys"
proof -
  let ?m = "\<lparr>role = User, content =
              SearchPrompt (originalSelection s) (js_trim v) (pageUrl pg) (pageHeading pg)
                (sliceAroundSelection lc (fullContext pg) (originalSelection s))\<rparr>"
  from topSearch_accepted [OF assms(2,3), of lc pg] assms(1)
  have h: "history (popup_step lc (TopSearchSubmit v pg now) s) = ?m # []" by simp
  from run_popup_first [OF assms(4) h, of lc] show ?thesis
    by (simp add: run_popup_Cons)
qed

lemma ex_session_history:
  "history (run_popup ascii_lower ex_session init_popup) =
     [\<lparr>role = User, content = ex_prompt\<rparr>,
      \<lparr>role = Assistant, content = js ''The theory.'' @ [newline, newline] @ js ''More.''\<rparr>,
      \<lparr>role = User, content = js ''why''\<rparr>,
      \<lparr>role = Assistant, content = js ''Because.''\<rparr>]"
  by (simp add: ex_session_def ex_prompt_def ex_page_def ex_idle_def popup_defs Let_def
      js_trim_def js_def is_space_def)

text \<open>
  Claim C6, as the specification words it: the first entry of the history is always the
  full constructed prompt. An Explain click without a selection sets an error, which
  opens the response section with its deeper search bar; a follow-up submitted there is
  recorded as the first entry, as raw text, while the prompt sent is the one built by
  \<open>DeeperPrompt\<close>; the transcript, which leaves out the first entry, is empty.
\<close>

theorem history_shape_counterexample:
  "responseOpen (popup_step ascii_lower (ExplainClick ex_page_empty 1000) init_popup)
   \<and> history (popup_step ascii_lower (ExplainClick ex_page_empty 1000) init_popup) = []
   \<and> history (run_popup ascii_lower
        [ExplainClick ex_page_empty 1000, DeeperAttempt (js ''why'') 2000 ex_idle] init_popup)
       = [\<lparr>role = User, content = js ''why''\<rparr>]
   \<and> snd (deeperAttempt (js ''why'') 2000 ex_idle
        (popup_step ascii_lower (ExplainClick ex_page_empty 1000) init_popup))
       = Some (DeeperPrompt [] (js ''why'') [])
   \<and> DeeperPrompt [] (js ''why'') [] \<noteq> js ''why''
   \<and> visibleHistory (history (run_popup ascii_lower
        [ExplainClick ex_page_empty 1000, DeeperAttempt (js ''why'') 2000 ex_idle] init_popup))
       = []"
proof -
  have ne: "DeeperPrompt [] (js ''why'') [] \<noteq> js ''why''"
    by (rule DeeperPrompt_not_raw)
  have rest: "responseOpen (popup_step ascii_lower (ExplainClick ex_page_empty 1000) init_popup)
   \<and> history (popup_step ascii_lower (ExplainClick ex_page_empty 1000) init_popup) = []
   \<and> history (run_popup ascii_lower
        [ExplainClick ex_page_empty 1000, DeeperAttempt (js ''why'') 2000 ex_idle] init_popup)
       = [\<lparr>role = User, content = js ''why''\<rparr>]
   \<and> snd (deeperAttempt (js ''why'') 2000 ex_idle
        (popup_step ascii_lower (ExplainClick ex_page_empty 1000) init_popup))
       = Some (DeeperPrompt [] (js ''why'') [])"
    by (simp add: ex_page_empty_def ex_idle_def popup_defs Let_def js_trim_def js_def
        is_space_def)
  from rest have "visibleHistory (history (run_popup ascii_lower
        [ExplainClick ex_page_empty 1000, DeeperAttempt (js ''why'') 2000 ex_idle] init_popup))
       = []"
    by (simp add: visibleHistory_def)
  with ne rest show ?thesis by blast
qed

text \<open>
  Claim C6, amended. An accepted Explain or top-search submission appends, as its user
  entry, the full constructed prompt that it sends; an accepted deeper submission
  appends the raw trimmed follow-up text, which differs from the prompt it sends. Every
  operation other than a reset keeps the entries of the history and appends at most one,
  so the first entry of a non-empty history stays the first: when the first accepted
  submission is an Explain or a top search, the first entry is its constructed prompt.
  One request appends at most one entry, an assistant entry, whatever the callbacks
  that follow its start (tokens, completions, stream errors with their fallback).
  The transcript shows the entries after the first.
\<close>

theorem history_shape:
  "(liveText pg = Some t \<and> js_trim t \<noteq> [] \<and> rateGate now (requestTimes s) = Accepted r \<longrightarrow>
      snd (handleExplainClick lc pg now s)
        = Some (Prompt (js_trim t) (pageUrl pg) (pageHeading pg)
                  (sliceAroundSelection lc (fullContext pg) (js_trim t)))
      \<and> history (fst (handleExplainClick lc pg now s))
        = history s @ [\<lparr>role = User, content =
             Prompt (js_trim t) (pageUrl pg) (pageHeading pg)
               (sliceAroundSelection lc (fullContext pg) (js_trim t))\<rparr>])
   \<and> (js_trim v \<noteq> [] \<and> rateGate now (requestTimes s) = Accepted r \<longrightarrow>
      snd (handleTopSearchSubmit lc v pg now s)
        = Some (SearchPrompt (originalSelection s) (js_trim v) (pageUrl pg) (pageHeading pg)
                  (sliceAroundSelection lc (fullContext pg) (originalSelection s)))
      \<and> history (fst (handleTopSearchSubmit lc v pg now s))
        = history s @ [\<lparr>role = User, content =
             SearchPrompt (originalSelection s) (js_trim v) (pageUrl pg) (pageHeading pg)
               (sliceAroundSelection lc (fullContext pg) (originalSelection s))\<rparr>])
   \<and> (js_trim q \<noteq> [] \<and> rateGate now (requestTimes s) = Accepted r \<longrightarrow>
      snd (handleDeeperSubmit q now s) = Some (DeeperPrompt (history s) (js_trim q) (contexts s))
      \<and> history (fst (handleDeeperSubmit q now s))
        = history s @ [\<lparr>role = User, content = js_trim q\<rparr>]
      \<and> DeeperPrompt (history s) (js_trim q) (contexts s) \<noteq> js_trim q)
   \<and> (ev \<noteq> Reset \<longrightarrow>
        (\<exists>ys. history (popup_step lc ev s) = history s @ ys \<and> length ys \<le> 1))
   \<and> (Reset \<notin> set evs \<and> history s = m # ms \<longrightarrow>
        (\<exists>ys. history (run_popup lc evs s) = m # ms @ ys))
   \<and> (history s = [] \<and> liveText pg = Some t \<and> js_trim t \<noteq> []
        \<and> rateGate now (requestTimes s) = Accepted r \<and> Reset \<notin> set evs \<longrightarrow>
        (\<exists>ys. history (run_popup lc (ExplainClick pg now # evs) s) =
           \<lparr>role = User, content = Prompt (js_trim t) (pageUrl pg) (pageHeading pg)
              (sliceAroundSelection lc (fullContext pg) (js_trim t))\<rparr> # ys))
   \<and> (history s = [] \<and> js_trim v \<noteq> []
        \<and> rateGate now (requestTimes s) = Accepted r \<and> Reset \<notin> set evs \<longrightarrow>
        (\<exists>ys. history (run_popup lc (TopSearchSubmit v pg now # evs) s) =
           \<lparr>role = User, content =
              SearchPrompt (originalSelection s) (js_trim v) (pageUrl pg) (pageHeading pg)
                (sliceAroundSelection lc (fullContext pg) (originalSelection s))\<rparr> # ys))
   \<and> (\<exists>ys. history (run_request revs (callGemini_start s)) = history s @ ys \<and> length ys \<le> 1
        \<and> (\<forall>a\<in>set ys. role a = Assistant))
   \<and> visibleHistory (m # ms) = ms \<and> visibleHistory [] = []"
proof -
  have p1: "liveText pg = Some t \<and> js_trim t \<noteq> [] \<and> rateGate now (requestTimes s) = Accepted r \<longrightarrow>
      snd (handleExplainClick lc pg now s)
        = Some (Prompt (js_trim t) (pageUrl pg) (pageHeading pg)
                  (sliceAroundSelection lc (fullContext pg) (js_trim t)))
      \<and> history (fst (handleExplainClick lc pg now s))
        = history s @ [\<lparr>role = User, content =
             Prompt (js_trim t) (pageUrl pg) (pageHeading pg)
               (sliceAroundSelection lc (fullContext pg) (js_trim t))\<rparr>]"
    using explain_accepted [of pg t now s r lc] by blast
  have p2: "js_trim v \<noteq> [] \<and> rateGate now (requestTimes s) = Accepted r \<longrightarrow>
      snd (handleTopSearchSubmit lc v pg now s)
        = Some (SearchPrompt (originalSelection s) (js_trim v) (pageUrl pg) (pageHeading pg)
                  (sliceAroundSelection lc (fullContext pg) (originalSelection s)))
      \<and> history (fst (handleTopSearchSubmit lc v pg now s))
        = history s @ [\<lparr>role = User, content =
             SearchPrompt (originalSelection s) (js_trim v) (pageUrl pg) (pageHeading pg)
               (sliceAroundSelection lc (fullContext pg) (originalSelection s))\<rparr>]"
    using topSearch_accepted [of v now s r lc pg] by blast
  have p3: "js_trim q \<noteq> [] \<and> rateGate now (requestTimes s) = Accepted r \<longrightarrow>
      snd (handleDeeperSubmit q now s) = Some (DeeperPrompt (history s) (js_trim q) (contexts s))
      \<and> history (fst (handleDeeperSubmit q now s))
        = history s @ [\<lparr>role = User, content = js_trim q\<rparr>]
      \<and> DeeperPrompt (history s) (js_trim q) (contexts s) \<noteq> js_trim q"
    using deeper_accepted [of q now s r] DeeperPrompt_not_raw by blast
  have p4: "ev \<noteq> Reset \<longrightarrow>
        (\<exists>ys. history (popup_step lc ev s) = history s @ ys \<and> length ys \<le> 1)"
    using popup_step_extends by blast
  have p5: "Reset \<notin> set evs \<and> history s = m # ms \<longrightarrow>
        (\<exists>ys. history (run_popup lc evs s) = m # ms @ ys)"
    using run_popup_first by blast
  have "history (callGemini_start s) = history s"
    by (simp add: callGemini_start_def)
  with run_request_once [of revs "callGemini_start s"]
  have p6: "\<exists>ys. history (run_request revs (callGemini_start s)) = history s @ ys \<and> length ys \<le> 1
        \<and> (\<forall>a\<in>set ys. role a = Assistant)"
    by simp
  have p7: "visibleHistory (m # ms) = ms \<and> visibleHistory [] = []"
    by (simp add: visibleHistory_def)
  have p8: "history s = [] \<and> liveText pg = Some t \<and> js_trim t \<noteq> []
        \<and> rateGate now (requestTimes s) = Accepted r \<and> Reset \<notin> set evs \<longrightarrow>
        (\<exists>ys. history (run_popup lc (ExplainClick pg now # evs) s) =
           \<lparr>role = User, content = Prompt (js_trim t) (pageUrl pg) (pageHeading pg)
              (sliceAroundSelection lc (fullContext pg) (js_trim t))\<rparr> # ys)"
    using explain_first [of s pg t now r evs lc] by blast
  have p9: "history s = [] \<and> js_trim v \<noteq> []
        \<and> rateGate now (requestTimes s) = Accepted r \<and> Reset \<notin> set evs \<longrightarrow>
        (\<exists>ys. history (run_popup lc (TopSearchSubmit v pg now # evs) s) =
           \<lparr>role = User, content =
              SearchPrompt (originalSelection s) (js_trim v) (pageUrl pg) (pageHeading pg)
                (sliceAroundSelection lc (fullContext pg) (originalSelection s))\<rparr> # ys)"
    using topSearch_first [of s v now r evs lc pg] by blast
  from p1 p2 p3 p4 p5 p6 p7 p8 p9 show ?thesis by blast
qed

theorem history_shape_witness:
  "liveText ex_page = Some (js '' E=mc2 '') \<and> js_trim (js '' E=mc2 '') = js ''E=mc2''
   \<and> rateGate 1000 (requestTimes init_popup) = Accepted [1000]
   \<and> snd (handleExplainClick ascii_lower ex_page 1000 init_popup) = Some ex_prompt
   \<and> history (fst (handleExplainClick ascii_lower ex_page 1000 init_popup))
       = [\<lparr>role = User, content = ex_prompt\<rparr>]
   \<and> history (run_popup ascii_lower ex_session init_popup) =
       [\<lparr>role = User, content = ex_prompt\<rparr>,
        \<lparr>role = Assistant, content = js ''The theory.'' @ [newline, newline] @ js ''More.''\<rparr>,
        \<lparr>role = User, content = js ''why''\<rparr>,
        \<lparr>role = Assistant, content = js ''Because.''\<rparr>]
   \<and> visibleHistory (history (run_popup ascii_lower ex_session init_popup)) =
       [\<lparr>role = Assistant, content = js ''The theory.'' @ [newline, newline] @ js ''More.''\<rparr>,
        \<lparr>role = User, content = js ''why''\<rparr>,
        \<lparr>role = Assistant, content = js ''Because.''\<rparr>]"
proof -
  have g: "rateGate 1000 (requestTimes init_popup) = Accepted [1000]"
    by (simp add: rateGate_def init_popup_def RATE_LIMIT_def RATE_WINDOW_MS_def)
  have pg: "fullContext ex_page = js ''Einstein wrote E=mc2 in 1905.''
      \<and> pageUrl ex_page = js ''https://example.com'' \<and> pageHeading ex_page = js ''Relativity''
      \<and> history init_popup = []"
    by (simp add: ex_page_def init_popup_def)
  note t = history_shape [where pg = ex_page and t = "js '' E=mc2 ''" and now = 1000
      and s = init_popup and r = "[1000]" and lc = ascii_lower
      and m = "\<lparr>role = User, content = ex_prompt\<rparr>"
      and ms = "[\<lparr>role = Assistant,
                  content = js ''The theory.'' @ [newline, newline] @ js ''More.''\<rparr>,
                 \<lparr>role = User, content = js ''why''\<rparr>,
                 \<lparr>role = Assistant, content = js ''Because.''\<rparr>]"]
  from t ex_page_text g pg
  have first: "snd (handleExplainClick ascii_lower ex_page 1000 init_popup) = Some ex_prompt
      \<and> history (fst (handleExplainClick ascii_lower ex_page 1000 init_popup))
       = [\<lparr>role = User, content = ex_prompt\<rparr>]"
    by (simp add: ex_prompt_def)
  from t have vis: "visibleHistory
      (\<lparr>role = User, content = ex_prompt\<rparr> #
        [\<lparr>role = Assistant, content = js ''The theory.'' @ [newline, newline] @ js ''More.''\<rparr>,
         \<lparr>role = User, content = js ''why''\<rparr>, \<lparr>role = Assistant, content = js ''Because.''\<rparr>])
      = [\<lparr>role = Assistant, content = js ''The theory.'' @ [newline, newline] @ js ''More.''\<rparr>,
         \<lparr>role = User, content = js ''why''\<rparr>, \<lparr>role = Assistant, content = js ''Because.''\<rparr>]"
    by blast
  from first vis g ex_page_text ex_session_history show ?thesis by simp
qed

end
